theory Spec2Isabelle
  imports Complex_Main
begin

section \<open>The web research engine of src/modules/web\_browser.py\<close>

text \<open>
  A shallow embedding of class \<open>WebBrowser\<close>. The instance is a record that every
  operation takes and returns; each operation also returns the list of effects it
  performed, in order: the HTTP GET requests, the suspensions, and the two log lines
  that tell which query a round works on. What lies outside the repository is an input
  of the model:
  \<^item> the Python standard library (\<open>urlparse\<close>, \<open>urljoin\<close>, \<open>ipaddress.ip_address\<close>,
    \<open>time.strftime\<close>) is the record \<open>env\<close> of functions, so every theorem holds for
    every behaviour of the library;
  \<^item> the network is the oracle \<open>http_get env k url\<close>: the outcome of the \<open>k\<close>-th GET
    request the instance issues, when it asks for \<open>url\<close>;
  \<^item> a parsed document (BeautifulSoup) is the record \<open>soup\<close> of what the selectors used
    by the source return on it.
  The user-facing messages of the source are Chinese text; they are the constructors of
  \<open>message\<close>, each with the source line of its literal. Strings are ASCII character lists.
\<close>

subsection \<open>Values\<close>

datatype exn = TimeoutError | OtherError string

datatype message =
    Browsing_disabled          \<comment> \<open>lines 59, 273, 384, 484\<close>
  | Content_check_failed       \<comment> \<open>line 64\<close>
  | Search_failed              \<comment> \<open>line 106\<close>
  | Unsafe_url                 \<comment> \<open>line 277\<close>
  | Http_error int             \<comment> \<open>line 300, with the status\<close>
  | Request_timeout            \<comment> \<open>line 342\<close>
  | Collect_failed             \<comment> \<open>line 435\<close>
  | Exception_text string      \<comment> \<open>\<open>str(e)\<close>\<close>
  | Blocked_keyword string     \<comment> \<open>security.py: the keyword found\<close>
  | Empty_text                 \<comment> \<open>the empty string\<close>

text \<open>A result of \<open>urlparse\<close>: the three attributes the source reads.\<close>

record parse_result =
  scheme :: string
  netloc :: string
  hostname :: "string option"

text \<open>An address object of \<open>ipaddress\<close>: the three properties the source reads.\<close>

record ip_addr =
  is_private :: bool
  is_loopback :: bool
  is_link_local :: bool

text \<open>Elements of a parsed document, as the selectors of the source see them.\<close>

record anchor =
  a_text :: string           \<comment> \<open>\<open>get_text(strip=True)\<close>\<close>
  a_href :: string           \<comment> \<open>\<open>get('href', '')\<close>\<close>
  a_in_stripped :: bool      \<comment> \<open>inside a script, style, nav, footer or header element\<close>

record baidu_item =
  b_t_a :: "anchor option"            \<comment> \<open>\<open>select_one('.t a')\<close>\<close>
  b_h3_a :: "anchor option"           \<comment> \<open>\<open>select_one('h3 a')\<close>\<close>
  b_c_abstract :: "string option"     \<comment> \<open>text of \<open>select_one('.c-abstract')\<close>\<close>
  b_c_span_last :: "string option"    \<comment> \<open>text of \<open>select_one('.c-span-last')\<close>\<close>

record google_item =
  g_h3 :: "string option"             \<comment> \<open>text of \<open>select_one('h3')\<close>\<close>
  g_a :: "string option"              \<comment> \<open>href of \<open>select_one('a')\<close>\<close>
  g_VwiC3b :: "string option"         \<comment> \<open>text of \<open>select_one('.VwiC3b')\<close>\<close>

record bing_item =
  m_h2_a :: "anchor option"           \<comment> \<open>\<open>select_one('h2 a')\<close>\<close>
  m_b_caption_p :: "string option"    \<comment> \<open>text of \<open>select_one('.b_caption p')\<close>\<close>

record soup =
  select_result :: "baidu_item list"     \<comment> \<open>\<open>soup.select('.result')\<close>\<close>
  select_div_g :: "google_item list"     \<comment> \<open>\<open>soup.select('div.g')\<close>\<close>
  select_b_algo :: "bing_item list"      \<comment> \<open>\<open>soup.select('.b_algo')\<close>\<close>
  anchors :: "anchor list"               \<comment> \<open>the \<open>a\<close> elements with an href, in document order\<close>
  stripped_text :: string                \<comment> \<open>lines 319-320 on the document after line 317\<close>

record page =
  html_len :: nat                        \<comment> \<open>\<open>len(html)\<close>\<close>
  doc :: soup                            \<comment> \<open>\<open>BeautifulSoup(html, 'html.parser')\<close>\<close>

datatype outcome =
    Raises exn                 \<comment> \<open>the request, or reading its body, raised\<close>
  | Response int page          \<comment> \<open>status and body\<close>

datatype log_line =
    Collect_start string       \<comment> \<open>line 387, with the query\<close>
  | Round_start int string     \<comment> \<open>line 490, with the round number and the query\<close>

datatype event =
    Get string                 \<comment> \<open>\<open>session.get(url)\<close>\<close>
  | Sleep rat                  \<comment> \<open>\<open>asyncio.sleep(seconds)\<close>\<close>
  | Log log_line

record env =
  urlparse :: "string \<Rightarrow> parse_result option"       \<comment> \<open>None: raised\<close>
  ip_address :: "string \<Rightarrow> ip_addr option"          \<comment> \<open>None: ValueError\<close>
  urljoin :: "string \<Rightarrow> string \<Rightarrow> exn + string"
  http_get :: "nat \<Rightarrow> string \<Rightarrow> outcome"
  strftime :: "nat \<Rightarrow> string"

subsection \<open>Result dictionaries\<close>

text \<open>
  Each dictionary the source returns is a record with one optional field per key the
  source may put there: a key is present when its field is not None.
\<close>

record search_hit =
  hit_title :: string
  hit_url :: string
  hit_description :: string
  hit_source :: string

record search_reply =
  s_success :: bool
  s_results :: "search_hit list option"
  s_query :: "string option"
  s_engine :: "string option"
  s_cached :: "bool option"
  s_error :: "message option"
  s_reason :: "message option"

record link =
  link_text :: string
  link_url :: string

text \<open>The dictionary \<open>data\<close> of \<open>fetch_page\<close>, stored in the page cache.\<close>

record page_data =
  d_url :: string
  d_status :: int
  d_content_length :: nat
  d_text :: "string option"
  d_links :: "link list option"

record page_reply =
  p_success :: bool
  p_url :: "string option"
  p_status :: "int option"
  p_content_length :: "nat option"
  p_text :: "string option"
  p_links :: "link list option"
  p_cached :: "bool option"
  p_error :: "message option"

subsection \<open>The instance\<close>

record browser =
  enabled :: bool                                  \<comment> \<open>\<open>self._enabled\<close>\<close>
  max_retries :: int                               \<comment> \<open>\<open>self._max_retries\<close>\<close>
  filter_enabled :: bool                           \<comment> \<open>config security.content\_filter.enabled\<close>
  blocked_keywords :: "string list"                \<comment> \<open>in iteration order\<close>
  visited_urls :: "string \<rightharpoonup> page_data"
  search_cache :: "string \<rightharpoonup> search_hit list"
  requests :: nat                                  \<comment> \<open>GET requests issued so far\<close>
  clock_reads :: nat                               \<comment> \<open>calls of \<open>time.strftime\<close> so far\<close>

definition reply :: "'a \<times> 'b \<times> 'c \<Rightarrow> 'a" where
  "reply r = fst r"

definition after :: "'a \<times> 'b \<times> 'c \<Rightarrow> 'b" where
  "after r = fst (snd r)"

definition effects :: "'a \<times> 'b \<times> 'c \<Rightarrow> 'c" where
  "effects r = snd (snd r)"

fun is_get :: "event \<Rightarrow> bool" where
  "is_get (Get u) = True"
| "is_get e = False"

text \<open>Python's \<open>xs[:n]\<close>: a negative \<open>n\<close> counts from the end.\<close>

definition py_slice :: "'a list \<Rightarrow> int \<Rightarrow> 'a list" where
  "py_slice xs n = (if 0 \<le> n then take (nat n) xs else take (length xs - nat (- n)) xs)"

definition session_get :: "env \<Rightarrow> browser \<Rightarrow> string \<Rightarrow> outcome \<times> browser" where
  "session_get e s url = (http_get e (requests s) url, s\<lparr>requests := Suc (requests s)\<rparr>)"

subsection \<open>\<open>_is_safe_url\<close> (lines 347-374)\<close>

definition is_safe_url :: "env \<Rightarrow> string \<Rightarrow> bool" where
  "is_safe_url e url =
     (case urlparse e url of
        None \<Rightarrow> False
      | Some parsed \<Rightarrow>
          if scheme parsed = [] \<or> netloc parsed = [] then False
          else if scheme parsed \<notin> set [''http'', ''https''] then False
          else if hostname parsed \<in>
                    set [Some ''localhost'', Some ''127.0.0.1'', Some ''0.0.0.0'', Some ''::1'']
            then False
          else (case hostname parsed of
                  None \<Rightarrow> True
                | Some h \<Rightarrow>
                    if h = [] then True
                    else (case ip_address e h of
                            None \<Rightarrow> True
                          | Some ip \<Rightarrow>
                              if is_private ip \<or> is_loopback ip \<or> is_link_local ip
                              then False else True)))"

subsection \<open>\<open>fetch_page\<close> (lines 264-345)\<close>

definition page_failure :: "message \<Rightarrow> string option \<Rightarrow> page_reply" where
  "page_failure m u =
     \<lparr>p_success = False, p_url = u, p_status = None, p_content_length = None,
      p_text = None, p_links = None, p_cached = None, p_error = Some m\<rparr>"

text \<open>\<open>{'success': True, **data}\<close>, and with \<open>'cached': True\<close> added on a cache hit.\<close>

definition page_success :: "page_data \<Rightarrow> bool option \<Rightarrow> page_reply" where
  "page_success d c =
     \<lparr>p_success = True, p_url = Some (d_url d), p_status = Some (d_status d),
      p_content_length = Some (d_content_length d), p_text = d_text d,
      p_links = d_links d, p_cached = c, p_error = None\<rparr>"

fun exn_message :: "exn \<Rightarrow> message" where
  "exn_message TimeoutError = Request_timeout"
| "exn_message (OtherError m) = Exception_text m"

text \<open>Line 317: the elements removed before the text is read are gone for good.\<close>

definition decompose :: "soup \<Rightarrow> soup" where
  "decompose d = d\<lparr>anchors := filter (\<lambda>a. \<not> a_in_stripped a) (anchors d)\<rparr>"

text \<open>Lines 326-333: the loop over the anchors; \<open>urljoin\<close> may raise.\<close>

fun extract_links_loop :: "env \<Rightarrow> string \<Rightarrow> anchor list \<Rightarrow> link list \<Rightarrow> exn + link list" where
  "extract_links_loop e url [] links = Inr links"
| "extract_links_loop e url (a # rest) links =
     (case urljoin e url (a_href a) of
        Inl x \<Rightarrow> Inl x
      | Inr full_url \<Rightarrow>
          extract_links_loop e url rest
            (if is_safe_url e full_url
             then links @ [\<lparr>link_text = a_text a, link_url = full_url\<rparr>]
             else links))"

definition fetch_page ::
  "env \<Rightarrow> browser \<Rightarrow> string \<Rightarrow> bool \<Rightarrow> bool \<Rightarrow> bool \<Rightarrow> page_reply \<times> browser \<times> event list" where
  "fetch_page e s url extract_text extract_links use_cache =
     (if \<not> enabled s then (page_failure Browsing_disabled None, s, [])
      else if \<not> is_safe_url e url then (page_failure Unsafe_url None, s, [])
      else (case (if use_cache then visited_urls s url else None) of
        Some cached_data \<Rightarrow> (page_success cached_data (Some True), s, [])
      | None \<Rightarrow>
         (case session_get e s url of
            (Raises x, s1) \<Rightarrow> (page_failure (exn_message x) (Some url), s1, [Get url])
          | (Response status pg, s1) \<Rightarrow>
              if status \<noteq> 200
              then (page_failure (Http_error status) (Some url), s1, [Get url])
              else
                let data0 = \<lparr>d_url = url, d_status = status, d_content_length = html_len pg,
                             d_text = None, d_links = None\<rparr>;
                    soup1 = (if extract_text then decompose (doc pg) else doc pg);
                    data1 = (if extract_text
                             then data0\<lparr>d_text := Some (stripped_text soup1)\<rparr> else data0);
                    found = (if extract_links
                             then map_sum id Some (extract_links_loop e url (anchors soup1) [])
                             else Inr None)
                in (case found of
                      Inl x \<Rightarrow> (page_failure (exn_message x) (Some url), s1, [Get url])
                    | Inr ls \<Rightarrow>
                        let data = data1\<lparr>d_links := ls\<rparr>
                        in (page_success data None,
                            s1\<lparr>visited_urls := (visited_urls s1)(url \<mapsto> data)\<rparr>,
                            [Get url])))))"

subsection \<open>\<open>check_content_safety\<close> (src/utils/security.py, lines 78-89)\<close>

definition lower_char :: "char \<Rightarrow> char" where
  "lower_char c =
     (let n = (of_char c :: nat) in if 65 \<le> n \<and> n \<le> 90 then char_of (n + 32) else c)"

definition lower :: "string \<Rightarrow> string" where
  "lower content = map lower_char content"

text \<open>Python's \<open>needle in haystack\<close> on strings.\<close>

fun contains :: "string \<Rightarrow> string \<Rightarrow> bool" where
  "contains [] needle = (needle = [])"
| "contains (c # cs) needle = (take (length needle) (c # cs) = needle \<or> contains cs needle)"

fun first_blocked :: "string list \<Rightarrow> string \<Rightarrow> string option" where
  "first_blocked [] content_lower = None"
| "first_blocked (keyword # rest) content_lower =
     (if contains content_lower (lower keyword) then Some keyword
      else first_blocked rest content_lower)"

definition check_content_safety :: "browser \<Rightarrow> string \<Rightarrow> bool \<times> message" where
  "check_content_safety s content =
     (if \<not> filter_enabled s then (True, Empty_text)
      else (case first_blocked (blocked_keywords s) (lower content) of
              Some keyword \<Rightarrow> (False, Blocked_keyword keyword)
            | None \<Rightarrow> (True, Empty_text)))"

subsection \<open>The result parsers (lines 153-262)\<close>

text \<open>\<open>a or b\<close> on two elements that may be None (an element is never falsy).\<close>

definition or_else :: "'a option \<Rightarrow> 'a option \<Rightarrow> 'a option" where
  "or_else a b = (case a of Some x \<Rightarrow> Some x | None \<Rightarrow> b)"

definition text_or_empty :: "string option \<Rightarrow> string" where
  "text_or_empty t = (case t of Some x \<Rightarrow> x | None \<Rightarrow> [])"

fun parse_baidu_loop :: "baidu_item list \<Rightarrow> search_hit list \<Rightarrow> search_hit list" where
  "parse_baidu_loop [] results = results"
| "parse_baidu_loop (item # rest) results =
     (case or_else (b_t_a item) (b_h3_a item) of
        None \<Rightarrow> parse_baidu_loop rest results
      | Some title_elem \<Rightarrow>
          parse_baidu_loop rest
            (results @
             [\<lparr>hit_title = a_text title_elem, hit_url = a_href title_elem,
               hit_description = text_or_empty (or_else (b_c_abstract item) (b_c_span_last item)),
               hit_source = ''baidu''\<rparr>]))"

definition parse_baidu_results :: "soup \<Rightarrow> int \<Rightarrow> search_hit list" where
  "parse_baidu_results d max_results =
     parse_baidu_loop (py_slice (select_result d) max_results) []"

fun parse_google_loop :: "google_item list \<Rightarrow> search_hit list \<Rightarrow> search_hit list" where
  "parse_google_loop [] results = results"
| "parse_google_loop (item # rest) results =
     (case (g_h3 item, g_a item) of
        (Some title, Some href) \<Rightarrow>
          parse_google_loop rest
            (results @
             [\<lparr>hit_title = title, hit_url = href,
               hit_description = text_or_empty (g_VwiC3b item), hit_source = ''google''\<rparr>])
      | _ \<Rightarrow> parse_google_loop rest results)"

definition parse_google_results :: "soup \<Rightarrow> int \<Rightarrow> search_hit list" where
  "parse_google_results d max_results =
     parse_google_loop (py_slice (select_div_g d) max_results) []"

fun parse_bing_loop :: "bing_item list \<Rightarrow> search_hit list \<Rightarrow> search_hit list" where
  "parse_bing_loop [] results = results"
| "parse_bing_loop (item # rest) results =
     (case m_h2_a item of
        None \<Rightarrow> parse_bing_loop rest results
      | Some title_elem \<Rightarrow>
          parse_bing_loop rest
            (results @
             [\<lparr>hit_title = a_text title_elem, hit_url = a_href title_elem,
               hit_description = text_or_empty (m_b_caption_p item), hit_source = ''bing''\<rparr>]))"

definition parse_bing_results :: "soup \<Rightarrow> int \<Rightarrow> search_hit list" where
  "parse_bing_results d max_results =
     parse_bing_loop (py_slice (select_b_algo d) max_results) []"

definition generic_candidate :: "anchor \<Rightarrow> bool" where
  "generic_candidate a =
     (take 4 (a_href a) = ''http''
      \<and> \<not> list_ex (contains (a_href a)) [''google.com'', ''bing.com'', ''baidu.com'']
      \<and> a_text a \<noteq> [] \<and> 3 < length (a_text a))"

fun parse_generic_loop :: "anchor list \<Rightarrow> int \<Rightarrow> search_hit list \<Rightarrow> search_hit list" where
  "parse_generic_loop [] max_results results = results"
| "parse_generic_loop (a # rest) max_results results =
     (if generic_candidate a
      then (let results1 = results @
                  [\<lparr>hit_title = a_text a, hit_url = a_href a, hit_description = [],
                    hit_source = ''generic''\<rparr>]
            in if max_results \<le> int (length results1) then results1
               else parse_generic_loop rest max_results results1)
      else parse_generic_loop rest max_results results)"

definition parse_generic_results :: "soup \<Rightarrow> int \<Rightarrow> search_hit list" where
  "parse_generic_results d max_results =
     parse_generic_loop (py_slice (anchors d) (max_results * 2)) max_results []"

text \<open>Lines 134-141: the parser is chosen by the engine's name alone.\<close>

definition parse_for_engine :: "string \<Rightarrow> soup \<Rightarrow> int \<Rightarrow> search_hit list" where
  "parse_for_engine engine d max_results =
     (if engine = ''baidu'' then parse_baidu_results d max_results
      else if engine = ''google'' then parse_google_results d max_results
      else if engine = ''bing'' then parse_bing_results d max_results
      else parse_generic_results d max_results)"

subsection \<open>\<open>_fetch_search_results\<close> (lines 110-151)\<close>

definition prepend :: "event list \<Rightarrow> 'a \<times> 'b \<times> event list \<Rightarrow> 'a \<times> 'b \<times> event list" where
  "prepend t r = (fst r, fst (snd r), t @ snd (snd r))"

text \<open>
  The loop \<open>for attempt in range(self._max_retries)\<close>, over the attempts still to run.
  An exception is caught at line 146 and, unless the attempt is the last, followed by a
  suspension; a status other than 200 and an empty parse go on to the next attempt at
  once; a non-empty parse leaves the loop.
\<close>

fun fetch_attempts ::
  "env \<Rightarrow> string \<Rightarrow> int \<Rightarrow> string \<Rightarrow> nat list \<Rightarrow> search_hit list \<Rightarrow> browser
   \<Rightarrow> search_hit list \<times> browser \<times> event list" where
  "fetch_attempts e url max_results engine [] results s = (results, s, [])"
| "fetch_attempts e url max_results engine (attempt # rest) results s =
     (case session_get e s url of
        (Raises x, s1) \<Rightarrow>
          prepend
            (Get url #
             (if int attempt < max_retries s1 - 1 then [Sleep (1 * (of_nat attempt + 1))] else []))
            (fetch_attempts e url max_results engine rest results s1)
      | (Response status pg, s1) \<Rightarrow>
          if status \<noteq> 200
          then prepend [Get url] (fetch_attempts e url max_results engine rest results s1)
          else (let results1 = parse_for_engine engine (doc pg) max_results
                in if results1 \<noteq> [] then (results1, s1, [Get url])
                   else prepend [Get url]
                          (fetch_attempts e url max_results engine rest results1 s1)))"

definition fetch_search_results ::
  "env \<Rightarrow> browser \<Rightarrow> string \<Rightarrow> int \<Rightarrow> string \<Rightarrow> search_hit list \<times> browser \<times> event list" where
  "fetch_search_results e s url max_results engine =
     (let r = fetch_attempts e url max_results engine [0..<nat (max_retries s)] [] s
      in (py_slice (fst r) max_results, fst (snd r), snd (snd r)))"

subsection \<open>\<open>search\<close> (lines 50-108)\<close>

text \<open>The templates of \<open>SEARCH_ENGINES\<close>: each ends with the placeholder for the query.\<close>

definition SEARCH_ENGINES :: "(string \<times> string) list" where
  "SEARCH_ENGINES =
     [(''google'', ''https://www.google.com/search?q=''),
      (''bing'', ''https://www.bing.com/search?q=''),
      (''baidu'', ''https://www.baidu.com/s?wd=''),
      (''duckduckgo'', ''https://duckduckgo.com/?q='')]"

definition replace_spaces :: "string \<Rightarrow> string" where
  "replace_spaces q = map (\<lambda>c. if c = CHR '' '' then CHR ''+'' else c) q"

definition search_failure :: "message \<Rightarrow> message option \<Rightarrow> search_reply" where
  "search_failure m r =
     \<lparr>s_success = False, s_results = None, s_query = None, s_engine = None,
      s_cached = None, s_error = Some m, s_reason = r\<rparr>"

text \<open>Lines 78-79: an engine without a template is replaced by baidu.\<close>

definition effective_engine :: "string \<Rightarrow> string" where
  "effective_engine engine =
     (if engine \<notin> set (map fst SEARCH_ENGINES) then ''baidu'' else engine)"

text \<open>Lines 81-83: the template of the engine, filled in; None when there is none.\<close>

definition search_url_for :: "string \<Rightarrow> string \<Rightarrow> string option" where
  "search_url_for engine query =
     (case map_of SEARCH_ENGINES engine of
        None \<Rightarrow> None
      | Some template \<Rightarrow> Some (template @ replace_spaces query))"

text \<open>Line 67: the key of the search cache.\<close>

definition cache_key :: "string \<Rightarrow> string \<Rightarrow> string" where
  "cache_key engine query = engine @ '':'' @ query"

text \<open>
  Nothing in the body of the \<open>try\<close> of line 76 raises in this model but a missing
  template, which the line before rules out: \<open>_fetch_search_results\<close> catches every
  exception of its attempts itself.
\<close>

definition search ::
  "env \<Rightarrow> browser \<Rightarrow> string \<Rightarrow> string \<Rightarrow> int \<Rightarrow> bool \<Rightarrow> search_reply \<times> browser \<times> event list" where
  "search e s query engine max_results use_cache =
     (if \<not> enabled s then (search_failure Browsing_disabled None, s, [])
      else (case check_content_safety s query of
        (allowed, reason) \<Rightarrow>
          if \<not> allowed then (search_failure Content_check_failed (Some reason), s, [])
          else
            let key = cache_key engine query
            in (case (if use_cache then search_cache s key else None) of
                  Some cached_results \<Rightarrow>
                    (\<lparr>s_success = True, s_results = Some cached_results, s_query = None,
                      s_engine = None, s_cached = Some True, s_error = None, s_reason = None\<rparr>,
                     s, [])
                | None \<Rightarrow>
                    let engine1 = effective_engine engine
                    in (case search_url_for engine1 query of
                          None \<Rightarrow>
                            (search_failure Search_failed (Some (Exception_text engine1)), s, [])
                        | Some search_url \<Rightarrow>
                            let r = fetch_search_results e s search_url max_results engine1;
                                results = fst r;
                                s1 = fst (snd r)
                            in (\<lparr>s_success = True, s_results = Some results,
                                  s_query = Some query, s_engine = Some engine1,
                                  s_cached = None, s_error = None, s_reason = None\<rparr>,
                                s1\<lparr>search_cache := (search_cache s1)(key \<mapsto> results)\<rparr>,
                                snd (snd r))))))"

subsection \<open>\<open>collect_information\<close> and its summary (lines 376-475)\<close>

record info =
  source_title :: string
  source_url :: string
  source_description :: string
  content :: string
  content_length :: nat

text \<open>
  The summary is a text built from labels and numbers; the model keeps what it is built
  from, not its rendering: the line for no information (line 446), or the query, the
  number of sources, one entry per source and the total length of the contents.
\<close>

record summary_entry =
  e_index :: nat
  e_title :: string
  e_url :: string
  e_desc :: string
  e_ellipsis :: bool

datatype summary =
    Nothing_found string
  | Digest string nat "summary_entry list" nat

record collect_reply =
  c_success :: bool
  c_query :: "string option"
  c_summary :: "summary option"
  c_sources :: "string list option"
  c_detailed_info :: "info list option"
  c_collection_time :: "string option"
  c_error :: "message option"
  c_reason :: "message option"

definition summarize_collected_info :: "info list \<Rightarrow> string \<Rightarrow> summary" where
  "summarize_collected_info info_list query =
     (if info_list = [] then Nothing_found query
      else Digest query (length info_list)
             (map (\<lambda>(i, x).
                     \<lparr>e_index = i, e_title = source_title x, e_url = source_url x,
                      e_desc = take 200 (source_description x),
                      e_ellipsis = (200 \<le> length (take 200 (source_description x)))\<rparr>)
                  (zip [1..<Suc (length info_list)] info_list))
             (sum_list (map content_length info_list)))"

text \<open>
  Lines 398-415: the loop over the search results. A result with an empty url is skipped
  before the pause of line 415; every other one is fetched and followed by the pause.
\<close>

fun collect_loop ::
  "env \<Rightarrow> search_hit list \<Rightarrow> info list \<Rightarrow> browser \<Rightarrow> info list \<times> browser \<times> event list" where
  "collect_loop e [] collected_info s = (collected_info, s, [])"
| "collect_loop e (result # rest) collected_info s =
     (if hit_url result = [] then collect_loop e rest collected_info s
      else (let r = fetch_page e s (hit_url result) True False True;
                page_result = fst r
            in prepend (snd (snd r) @ [Sleep (1 / 2)])
                 (collect_loop e rest
                    (if p_success page_result
                     then collected_info @
                          [\<lparr>source_title = hit_title result, source_url = hit_url result,
                            source_description = hit_description result,
                            content = text_or_empty (p_text page_result),
                            content_length =
                              (case p_content_length page_result of Some n \<Rightarrow> n | None \<Rightarrow> 0)\<rparr>]
                     else collected_info)
                    (fst (snd r)))))"

text \<open>
  A failed search is returned as it is (line 392): a failure of \<open>search\<close> carries the
  keys success, error and reason only. The parameter \<open>max_depth\<close> is never read.
\<close>

definition collect_information ::
  "env \<Rightarrow> browser \<Rightarrow> string \<Rightarrow> int \<Rightarrow> collect_reply \<times> browser \<times> event list" where
  "collect_information e s query max_pages =
     (if \<not> enabled s
      then (\<lparr>c_success = False, c_query = None, c_summary = None, c_sources = None,
             c_detailed_info = None, c_collection_time = None,
             c_error = Some Browsing_disabled, c_reason = None\<rparr>, s, [])
      else
        let r = search e s query ''baidu'' max_pages True;
            search_result = fst r
        in prepend (Log (Collect_start query) # snd (snd r))
             (if \<not> s_success search_result
              then (\<lparr>c_success = False, c_query = None, c_summary = None, c_sources = None,
                     c_detailed_info = None, c_collection_time = None,
                     c_error = s_error search_result, c_reason = s_reason search_result\<rparr>,
                    fst (snd r), [])
              else
                let search_results = (case s_results search_result of Some x \<Rightarrow> x | None \<Rightarrow> []);
                    l = collect_loop e (py_slice search_results max_pages) [] (fst (snd r));
                    collected_info = fst l;
                    s2 = fst (snd l)
                in (\<lparr>c_success = True, c_query = Some query,
                      c_summary = Some (summarize_collected_info collected_info query),
                      c_sources = Some (map source_url collected_info),
                      c_detailed_info = Some collected_info,
                      c_collection_time = Some (strftime e (clock_reads s2)),
                      c_error = None, c_reason = None\<rparr>,
                    s2\<lparr>clock_reads := Suc (clock_reads s2)\<rparr>,
                    snd (snd l))))"

subsection \<open>\<open>search_and_research\<close> (lines 477-512)\<close>

record research_reply =
  r_success :: bool
  r_error :: "message option"
  r_original_query :: "string option"
  r_iterations :: "nat option"
  r_results :: "collect_reply list option"
  r_total_sources :: "nat option"

text \<open>
  The loop \<open>for i in range(num_iterations)\<close>, with its variables \<open>current_query\<close> and
  \<open>all_results\<close>. A round whose collection fails leaves the loop (line 495).
\<close>

fun research_loop ::
  "env \<Rightarrow> string \<Rightarrow> int \<Rightarrow> nat list \<Rightarrow> string \<Rightarrow> collect_reply list \<Rightarrow> browser
   \<Rightarrow> collect_reply list \<times> browser \<times> event list" where
  "research_loop e query num_iterations [] current_query all_results s = (all_results, s, [])"
| "research_loop e query num_iterations (i # rest) current_query all_results s =
     (let r = collect_information e s current_query 3;
          result = fst r
      in prepend (Log (Round_start (int i + 1) current_query) # snd (snd r))
           (if \<not> c_success result then (all_results, fst (snd r), [])
            else prepend [Sleep 1]
                   (research_loop e query num_iterations rest
                      (if int i < num_iterations - 1 then query else current_query)
                      (all_results @ [result]) (fst (snd r)))))"

definition search_and_research ::
  "env \<Rightarrow> browser \<Rightarrow> string \<Rightarrow> int \<Rightarrow> research_reply \<times> browser \<times> event list" where
  "search_and_research e s query num_iterations =
     (if \<not> enabled s
      then (\<lparr>r_success = False, r_error = Some Browsing_disabled, r_original_query = None,
             r_iterations = None, r_results = None, r_total_sources = None\<rparr>, s, [])
      else
        let l = research_loop e query num_iterations [0..<nat num_iterations] query [] s;
            all_results = fst l
        in (\<lparr>r_success = True, r_error = None, r_original_query = Some query,
              r_iterations = Some (length all_results), r_results = Some all_results,
              r_total_sources =
                Some (sum_list (map (\<lambda>r. length (case c_detailed_info r of Some x \<Rightarrow> x | None \<Rightarrow> []))
                                 all_results))\<rparr>,
            fst (snd l), snd (snd l)))"

subsection \<open>Concrete inputs\<close>

text \<open>
  A standard library that knows a few URLs, each parsed as CPython 3.11 parses it, and a
  few addresses. \<open>urljoin\<close> here resolves every reference used below as CPython does.
\<close>

definition py_urlparse :: "string \<Rightarrow> parse_result option" where
  "py_urlparse u =
     (if u = ''http://127.0.0.1/secret''
        then Some \<lparr>scheme = ''http'', netloc = ''127.0.0.1'', hostname = Some ''127.0.0.1''\<rparr>
      else if u = ''http://:80/''
        then Some \<lparr>scheme = ''http'', netloc = '':80'', hostname = None\<rparr>
      else if u = ''https://example.com''
        then Some \<lparr>scheme = ''https'', netloc = ''example.com'', hostname = Some ''example.com''\<rparr>
      else if u = ''https://example.com/about''
        then Some \<lparr>scheme = ''https'', netloc = ''example.com'', hostname = Some ''example.com''\<rparr>
      else if u = ''https://example.org/news''
        then Some \<lparr>scheme = ''https'', netloc = ''example.org'', hostname = Some ''example.org''\<rparr>
      else if u = ''http://10.0.0.5/admin''
        then Some \<lparr>scheme = ''http'', netloc = ''10.0.0.5'', hostname = Some ''10.0.0.5''\<rparr>
      else None)"

definition py_ip_address :: "string \<Rightarrow> ip_addr option" where
  "py_ip_address h =
     (if h = ''127.0.0.1''
        then Some \<lparr>is_private = True, is_loopback = True, is_link_local = False\<rparr>
      else if h = ''10.0.0.5''
        then Some \<lparr>is_private = True, is_loopback = False, is_link_local = False\<rparr>
      else None)"

definition py_urljoin :: "string \<Rightarrow> string \<Rightarrow> exn + string" where
  "py_urljoin base ref =
     (if take 1 ref = ''/'' then Inr (''https://example.com'' @ ref) else Inr ref)"

definition stdlib :: "(nat \<Rightarrow> string \<Rightarrow> outcome) \<Rightarrow> env" where
  "stdlib net =
     \<lparr>urlparse = py_urlparse, ip_address = py_ip_address, urljoin = py_urljoin,
      http_get = net, strftime = (\<lambda>k. ''2024-01-01 00:00:00'')\<rparr>"

text \<open>A fresh instance with the defaults of \<open>__init__\<close> and the content filter off.\<close>

definition fresh :: browser where
  "fresh =
     \<lparr>enabled = True, max_retries = 3, filter_enabled = False, blocked_keywords = [],
      visited_urls = Map.empty, search_cache = Map.empty, requests = 0, clock_reads = 0\<rparr>"

definition empty_soup :: soup where
  "empty_soup =
     \<lparr>select_result = [], select_div_g = [], select_b_algo = [], anchors = [],
      stripped_text = []\<rparr>"

text \<open>Networks: one that is down, one that answers 500, one that answers a fixed page.\<close>

definition net_down :: "nat \<Rightarrow> string \<Rightarrow> outcome" where
  "net_down k u = Raises (OtherError ''Cannot connect to host'')"

definition net_500 :: "nat \<Rightarrow> string \<Rightarrow> outcome" where
  "net_500 k u = Response 500 \<lparr>html_len = 0, doc = empty_soup\<rparr>"

definition net_page :: "soup \<Rightarrow> nat \<Rightarrow> string \<Rightarrow> outcome" where
  "net_page d k u = Response 200 \<lparr>html_len = 1000, doc = d\<rparr>"

definition baidu_block :: "string \<Rightarrow> string \<Rightarrow> baidu_item" where
  "baidu_block t u =
     \<lparr>b_t_a = Some \<lparr>a_text = t, a_href = u, a_in_stripped = False\<rparr>, b_h3_a = None,
      b_c_abstract = None, b_c_span_last = None\<rparr>"

text \<open>A result page of baidu with three result blocks.\<close>

definition results_soup :: soup where
  "results_soup =
     empty_soup\<lparr>select_result :=
       [baidu_block ''Weather today'' ''https://example.com'',
        baidu_block ''Weather tomorrow'' ''https://example.com/about'',
        baidu_block ''Weather news'' ''https://example.org/news'']\<rparr>"

text \<open>A result page of baidu with one result block.\<close>

definition single_soup :: soup where
  "single_soup =
     empty_soup\<lparr>select_result := [baidu_block ''Weather today'' ''https://example.com'']\<rparr>"

text \<open>
  A page with no result block of baidu, and links the generic strategy would take.
\<close>

definition links_soup :: soup where
  "links_soup =
     empty_soup\<lparr>anchors :=
       [\<lparr>a_text = ''Weather news'', a_href = ''https://example.org/news'',
         a_in_stripped = False\<rparr>]\<rparr>"

text \<open>
  A page whose navigation bar links to /about and whose body links to two sites, one of
  them at a private address.
\<close>

definition nav_soup :: soup where
  "nav_soup =
     empty_soup\<lparr>anchors :=
       [\<lparr>a_text = ''About'', a_href = ''/about'', a_in_stripped = True\<rparr>,
        \<lparr>a_text = ''News'', a_href = ''https://example.org/news'', a_in_stripped = False\<rparr>,
        \<lparr>a_text = ''Admin'', a_href = ''http://10.0.0.5/admin'', a_in_stripped = False\<rparr>],
       stripped_text := ''Welcome''\<rparr>"

subsection \<open>What the properties speak of\<close>

text \<open>The keys present in a reply.\<close>

definition search_keys :: "search_reply \<Rightarrow> string list" where
  "search_keys r =
     [''success''] @ (if s_results r = None then [] else [''results''])
     @ (if s_query r = None then [] else [''query''])
     @ (if s_engine r = None then [] else [''engine''])
     @ (if s_cached r = None then [] else [''cached''])
     @ (if s_error r = None then [] else [''error''])
     @ (if s_reason r = None then [] else [''reason''])"

text \<open>An attempt, by its outcome: did it raise, and the results it parsed.\<close>

fun raised :: "outcome \<Rightarrow> bool" where
  "raised (Raises x) = True"
| "raised (Response status pg) = False"

fun attempt_hits :: "string \<Rightarrow> int \<Rightarrow> outcome \<Rightarrow> search_hit list" where
  "attempt_hits engine max_results (Raises x) = []"
| "attempt_hits engine max_results (Response status pg) =
     (if status = 200 then parse_for_engine engine (doc pg) max_results else [])"

text \<open>
  The effects of attempt \<open>k\<close> (from 0) of a call of \<open>_fetch_search_results\<close> that starts
  in \<open>s\<close>: the request, and a suspension of \<open>k + 1\<close> seconds when the request raised
  and the attempt is not the last one.
\<close>

definition attempt_effects :: "env \<Rightarrow> browser \<Rightarrow> string \<Rightarrow> nat \<Rightarrow> event list" where
  "attempt_effects e s url k =
     Get url #
     (if raised (http_get e (requests s + k) url) \<and> int k < max_retries s - 1
      then [Sleep (of_nat k + 1)] else [])"

text \<open>
  Modelled from the spec's words (4.2): between consecutive attempts the controller
  suspends for \<open>base_delay * attempt_index\<close>, the index starting at 1. A sequence of
  effects follows it from index \<open>i\<close> on when every two consecutive requests have exactly
  that suspension between them; the base delay of the source is 1.
\<close>

fun spec_linear_backoff :: "nat \<Rightarrow> event list \<Rightarrow> bool" where
  "spec_linear_backoff i [] = True"
| "spec_linear_backoff i [Get u] = True"
| "spec_linear_backoff i (Get u # Sleep d # rest) =
     (d = of_nat i \<and> rest \<noteq> [] \<and> spec_linear_backoff (Suc i) rest)"
| "spec_linear_backoff i (x # rest) = False"

text \<open>Calls of the public methods, and a sequence of them run on an instance.\<close>

datatype call =
    Search string string int bool
  | Fetch_page string bool bool bool
  | Collect_information string int
  | Search_and_research string int

fun perform :: "env \<Rightarrow> browser \<Rightarrow> call \<Rightarrow> browser" where
  "perform e s (Search query engine max_results use_cache) =
     fst (snd (search e s query engine max_results use_cache))"
| "perform e s (Fetch_page url extract_text extract_links use_cache) =
     fst (snd (fetch_page e s url extract_text extract_links use_cache))"
| "perform e s (Collect_information query max_pages) =
     fst (snd (collect_information e s query max_pages))"
| "perform e s (Search_and_research query num_iterations) =
     fst (snd (search_and_research e s query num_iterations))"

fun run :: "env \<Rightarrow> browser \<Rightarrow> call list \<Rightarrow> browser" where
  "run e s [] = s"
| "run e s (c # cs) = run e (perform e s c) cs"

text \<open>A call that searches under the cache key \<open>key\<close> with \<open>use_cache=False\<close>.\<close>

fun bypasses :: "string \<Rightarrow> call \<Rightarrow> bool" where
  "bypasses key (Search query engine max_results use_cache) =
     (cache_key engine query = key \<and> \<not> use_cache)"
| "bypasses key c = False"

text \<open>The reply of \<open>search\<close> on a cache hit (lines 70-74).\<close>

definition cached_reply :: "search_hit list \<Rightarrow> search_reply" where
  "cached_reply v =
     \<lparr>s_success = True, s_results = Some v, s_query = None, s_engine = None,
      s_cached = Some True, s_error = None, s_reason = None\<rparr>"

text \<open>
  What a call that does not bypass the cache keeps of the instance: the configuration,
  and the entry of the search cache under \<open>key\<close>, once there is one.
\<close>

definition keeps :: "string \<Rightarrow> browser \<Rightarrow> browser \<Rightarrow> bool" where
  "keeps key s s' =
     (enabled s' = enabled s \<and> max_retries s' = max_retries s
      \<and> filter_enabled s' = filter_enabled s \<and> blocked_keywords s' = blocked_keywords s
      \<and> (search_cache s key = None \<or> search_cache s' key = search_cache s key))"

text \<open>The queries \<open>collect_information\<close> was entered with, in order (line 387).\<close>

fun collect_queries :: "event list \<Rightarrow> string list" where
  "collect_queries [] = []"
| "collect_queries (Log (Collect_start q) # t) = q # collect_queries t"
| "collect_queries (x # t) = collect_queries t"

text \<open>
  The target of an anchor resolved against the URL of the page (line 328), for an anchor
  on which \<open>urljoin\<close> does not raise.
\<close>

definition resolved :: "env \<Rightarrow> string \<Rightarrow> anchor \<Rightarrow> string" where
  "resolved e url a = (case urljoin e url (a_href a) of Inr u \<Rightarrow> u | Inl x \<Rightarrow> [])"

text \<open>
  A search reaches the network when browsing is enabled, the query passes the content
  check and the cache gives no hit (lines 58-74).
\<close>

definition reaches_network :: "browser \<Rightarrow> string \<Rightarrow> string \<Rightarrow> bool \<Rightarrow> bool" where
  "reaches_network s query engine use_cache =
     (enabled s \<and> fst (check_content_safety s query)
      \<and> (if use_cache then search_cache s (cache_key engine query) else None) = None)"

text \<open>
  The number of attempts a call of \<open>_fetch_search_results\<close> that starts in \<open>s\<close> is
  expected to make, read off the outcomes alone: the attempts go on as long as they
  yield nothing, so it is one more than the number of leading attempts that yield
  nothing, and \<open>max_retries\<close> at most.
\<close>

definition attempts_made :: "env \<Rightarrow> browser \<Rightarrow> string \<Rightarrow> int \<Rightarrow> string \<Rightarrow> nat" where
  "attempts_made e s url max_results engine =
     min (nat (max_retries s))
       (Suc (length (takeWhile
          (\<lambda>k. attempt_hits engine max_results (http_get e (requests s + k) url) = [])
          [0..<nat (max_retries s)])))"

text \<open>
  The replies of the rounds that complete when \<open>collect_information\<close> is called with
  \<open>query\<close> and \<open>max_pages=3\<close> up to \<open>k\<close> times in a row, each call on the instance
  the one before left, until a call fails.
\<close>

fun rounds :: "env \<Rightarrow> string \<Rightarrow> nat \<Rightarrow> browser \<Rightarrow> collect_reply list" where
  "rounds e query 0 s = []"
| "rounds e query (Suc k) s =
     (if c_success (fst (collect_information e s query 3))
      then fst (collect_information e s query 3)
           # rounds e query k (fst (snd (collect_information e s query 3)))
      else [])"

text \<open>A network that is down for the first three requests and then answers.\<close>

definition net_recovering :: "nat \<Rightarrow> string \<Rightarrow> outcome" where
  "net_recovering k u =
     (if k < 3 then Raises (OtherError ''Cannot connect to host'')
      else Response 200 \<lparr>html_len = 1000, doc = results_soup\<rparr>)"

section \<open>Properties\<close>

lemma reply_simp [simp]: "reply (a, b, c) = a"
  by (simp add: reply_def)

lemma after_simp [simp]: "after (a, b, c) = b"
  by (simp add: after_def)

lemma effects_simp [simp]: "effects (a, b, c) = c"
  by (simp add: effects_def)

subsection \<open>URL safety\<close>

text \<open>
  Claim C1, as amended. Let \<open>urlparse\<close> succeed on the URL. If the scheme is not http or
  https (an empty scheme included), or the network location (\<open>netloc\<close>) is empty, or the
  host name is one of localhost, 127.0.0.1, 0.0.0.0 and ::1, or the host name parses as
  an IP address that is private, loopback or link-local, then \<open>_is_safe_url\<close> returns
  False, and \<open>fetch_page\<close> on that URL returns a failure, performs no effect (no GET
  request in particular) and leaves the instance unchanged, whatever its arguments and
  the state of the instance.
\<close>

theorem is_safe_url_rejects:
  assumes "urlparse e url = Some parsed"
    and "scheme parsed \<notin> {''http'', ''https''} \<or> netloc parsed = []
         \<or> hostname parsed \<in> {Some ''localhost'', Some ''127.0.0.1'', Some ''0.0.0.0'', Some ''::1''}
         \<or> (\<exists>h ip. hostname parsed = Some h \<and> h \<noteq> [] \<and> ip_address e h = Some ip
                \<and> (is_private ip \<or> is_loopback ip \<or> is_link_local ip))"
  shows "\<not> is_safe_url e url
         \<and> \<not> p_success (reply (fetch_page e s url extract_text extract_links use_cache))
         \<and> effects (fetch_page e s url extract_text extract_links use_cache) = []
         \<and> after (fetch_page e s url extract_text extract_links use_cache) = s"
proof -
  have unsafe: "\<not> is_safe_url e url"
    using assms by (auto simp: is_safe_url_def)
  then show ?thesis
    by (simp add: fetch_page_def page_failure_def)
qed

text \<open>A URL on which \<open>urlparse\<close> raises is rejected as well (line 373).\<close>

lemma is_safe_url_unparsed: "urlparse e url = None \<Longrightarrow> \<not> is_safe_url e url"
  by (simp add: is_safe_url_def)

text \<open>The theorem at \<open>http://127.0.0.1/secret\<close>, on a fresh instance.\<close>

theorem is_safe_url_rejects_witness:
  "\<not> is_safe_url (stdlib net_down) ''http://127.0.0.1/secret''
   \<and> \<not> p_success (reply (fetch_page (stdlib net_down) fresh ''http://127.0.0.1/secret'' True False True))
   \<and> effects (fetch_page (stdlib net_down) fresh ''http://127.0.0.1/secret'' True False True) = []
   \<and> after (fetch_page (stdlib net_down) fresh ''http://127.0.0.1/secret'' True False True) = fresh"
  using is_safe_url_rejects [of "stdlib net_down" "''http://127.0.0.1/secret''"
     "\<lparr>scheme = ''http'', netloc = ''127.0.0.1'', hostname = Some ''127.0.0.1''\<rparr>"
     fresh True False True]
  by (simp add: stdlib_def py_urlparse_def)

text \<open>
  Claim C1 as stated fails for a URL that has a network location but no host:
  \<open>urlparse('http://:80/')\<close> has the scheme http, the netloc \<open>:80\<close> and the hostname
  None. The check of line 351 reads the netloc, so the URL passes it, the host checks do
  not apply to None, and \<open>_is_safe_url\<close> returns True; \<open>fetch_page\<close> goes on to the GET
  request.
\<close>

theorem is_safe_url_hostless_counterexample:
  "urlparse (stdlib net_down) ''http://:80/''
     = Some \<lparr>scheme = ''http'', netloc = '':80'', hostname = None\<rparr>
   \<and> is_safe_url (stdlib net_down) ''http://:80/''
   \<and> effects (fetch_page (stdlib net_down) fresh ''http://:80/'' True False True)
       = [Get ''http://:80/'']"
  by (simp add: stdlib_def py_urlparse_def is_safe_url_def fetch_page_def fresh_def
      session_get_def net_down_def page_failure_def)

subsection \<open>What the operations leave unchanged\<close>

lemma keeps_refl [simp]: "keeps key s s"
  by (simp add: keeps_def)

lemma keeps_trans: "keeps key s s1 \<Longrightarrow> keeps key s1 s2 \<Longrightarrow> keeps key s s2"
  by (auto simp: keeps_def)

lemma prepend_simps [simp]:
  "fst (prepend t r) = fst r"
  "fst (snd (prepend t r)) = fst (snd r)"
  "snd (snd (prepend t r)) = t @ snd (snd r)"
  by (simp_all add: prepend_def)

lemma fetch_attempts_after:
  "\<exists>k. fst (snd (fetch_attempts e url n eng as res s)) = s\<lparr>requests := k\<rparr>"
proof (induction as arbitrary: res s)
  case Nil
  have "s = s\<lparr>requests := requests s\<rparr>" by simp
  then show ?case by (metis fetch_attempts.simps(1) fst_conv snd_conv)
next
  case (Cons a as)
  obtain out s1 where sg: "session_get e s url = (out, s1)" by fastforce
  then have s1: "s1 = s\<lparr>requests := Suc (requests s)\<rparr>"
    by (simp add: session_get_def)
  have step: "\<And>res'. \<exists>k. fst (snd (fetch_attempts e url n eng as res' s1)) = s\<lparr>requests := k\<rparr>"
  proof -
    fix res'
    from Cons.IH [of res' s1] obtain k where
      "fst (snd (fetch_attempts e url n eng as res' s1)) = s1\<lparr>requests := k\<rparr>" by blast
    then have "fst (snd (fetch_attempts e url n eng as res' s1)) = s\<lparr>requests := k\<rparr>"
      by (simp add: s1)
    then show "\<exists>k. fst (snd (fetch_attempts e url n eng as res' s1)) = s\<lparr>requests := k\<rparr>"
      by blast
  qed
  have here: "\<exists>k. s1 = s\<lparr>requests := k\<rparr>" using s1 by blast
  show ?case
    using step here by (cases out) (simp_all add: sg Let_def)
qed

lemma fetch_search_results_after:
  "\<exists>k. fst (snd (fetch_search_results e s url n eng)) = s\<lparr>requests := k\<rparr>"
  using fetch_attempts_after [of e url n eng "[0..<nat (max_retries s)]" "[]" s]
  by (simp add: fetch_search_results_def Let_def)

lemma check_content_safety_cong:
  "filter_enabled s' = filter_enabled s \<Longrightarrow> blocked_keywords s' = blocked_keywords s
   \<Longrightarrow> check_content_safety s' q = check_content_safety s q"
  by (simp add: check_content_safety_def)

lemma search_url_for_effective: "search_url_for (effective_engine engine) query \<noteq> None"
  by (auto simp: search_url_for_def effective_engine_def SEARCH_ENGINES_def split: option.splits)

lemma search_keeps:
  assumes "\<not> bypasses key (Search q eng n uc)"
  shows "keeps key s (fst (snd (search e s q eng n uc)))"
proof -
  obtain k where k: "fst (snd (fetch_search_results e s (the (search_url_for (effective_engine eng) q)) n (effective_engine eng))) = s\<lparr>requests := k\<rparr>"
    using fetch_search_results_after by blast
  obtain u where u: "search_url_for (effective_engine eng) q = Some u"
    using search_url_for_effective by blast
  show ?thesis
    using assms k u
    by (auto simp: search_def keeps_def Let_def split: prod.splits option.splits if_splits)
qed

lemma fetch_page_keeps: "keeps key s (fst (snd (fetch_page e s u xt xl uc)))"
  by (auto simp: fetch_page_def keeps_def session_get_def Let_def
      split: prod.splits option.splits outcome.splits sum.splits if_splits)

lemma collect_loop_keeps: "keeps key s (fst (snd (collect_loop e hs acc s)))"
proof (induction hs arbitrary: acc s)
  case Nil
  then show ?case by simp
next
  case (Cons h hs)
  show ?case
    using Cons.IH fetch_page_keeps keeps_trans
    by (simp add: Let_def) blast
qed

lemma collect_information_keeps: "keeps key s (fst (snd (collect_information e s q n)))"
proof -
  have a: "keeps key s (fst (snd (search e s q ''baidu'' n True)))"
    by (rule search_keeps) simp
  have b: "\<And>hs. keeps key s (fst (snd (collect_loop e hs [] (fst (snd (search e s q ''baidu'' n True))))))"
    using a collect_loop_keeps keeps_trans by blast
  have c: "\<And>s' k. keeps key s s' \<Longrightarrow> keeps key s (s'\<lparr>clock_reads := k\<rparr>)"
    by (simp add: keeps_def)
  show ?thesis
    using a b c by (simp add: collect_information_def Let_def)
qed

lemma research_loop_keeps: "keeps key s (fst (snd (research_loop e q n is cq acc s)))"
proof (induction "is" arbitrary: cq acc s)
  case Nil
  then show ?case by simp
next
  case (Cons i "is")
  show ?case
    using Cons.IH collect_information_keeps keeps_trans
    by (simp add: Let_def) blast
qed

lemma search_and_research_keeps: "keeps key s (fst (snd (search_and_research e s q n)))"
  using research_loop_keeps by (simp add: search_and_research_def Let_def)

lemma perform_keeps: "\<not> bypasses key c \<Longrightarrow> keeps key s (perform e s c)"
  using search_keeps fetch_page_keeps collect_information_keeps search_and_research_keeps
  by (cases c) simp_all

lemma run_keeps: "list_all (\<lambda>c. \<not> bypasses key c) cs \<Longrightarrow> keeps key s (run e s cs)"
proof (induction cs arbitrary: s)
  case Nil
  then show ?case by simp
next
  case (Cons c cs)
  then show ?case
    using perform_keeps keeps_trans by (simp) blast
qed

lemma search_disabled:
  "\<not> enabled s \<Longrightarrow> search e s q eng n uc = (search_failure Browsing_disabled None, s, [])"
  by (simp add: search_def)

lemma search_refused:
  "enabled s \<Longrightarrow> \<not> fst (check_content_safety s q) \<Longrightarrow>
   search e s q eng n uc
     = (search_failure Content_check_failed (Some (snd (check_content_safety s q))), s, [])"
  by (cases "check_content_safety s q") (simp add: search_def)

lemma search_cache_hit:
  "enabled s \<Longrightarrow> fst (check_content_safety s q) \<Longrightarrow> uc \<Longrightarrow>
   search_cache s (cache_key eng q) = Some v \<Longrightarrow>
   search e s q eng n uc = (cached_reply v, s, [])"
  by (cases "check_content_safety s q") (simp add: search_def cached_reply_def)

lemma search_live:
  assumes "enabled s" and "fst (check_content_safety s q)"
    and "(if uc then search_cache s (cache_key eng q) else None) = None"
    and "search_url_for (effective_engine eng) q = Some u"
  shows "\<exists>k. search e s q eng n uc
     = (\<lparr>s_success = True,
          s_results = Some (fst (fetch_search_results e s u n (effective_engine eng))),
          s_query = Some q, s_engine = Some (effective_engine eng),
          s_cached = None, s_error = None, s_reason = None\<rparr>,
        s\<lparr>requests := k,
           search_cache := (search_cache s)(cache_key eng q \<mapsto>
              fst (fetch_search_results e s u n (effective_engine eng)))\<rparr>,
        snd (snd (fetch_search_results e s u n (effective_engine eng))))"
proof -
  obtain k where k: "fst (snd (fetch_search_results e s u n (effective_engine eng))) = s\<lparr>requests := k\<rparr>"
    using fetch_search_results_after by blast
  show ?thesis
    using assms k by (cases "check_content_safety s q") (auto simp: search_def Let_def)
qed

subsection \<open>Two searches in a row\<close>

text \<open>
  Claim C3, as amended. Two consecutive calls of \<open>search\<close> with the same engine and
  query and \<open>use_cache=True\<close>, whatever their \<open>max_results\<close> and the instance they
  start on: the second returns the same results as the first, performs no effect (no GET
  request) and leaves the instance as the first left it. When the first succeeded, the
  second reply has the keys success, results and cached (with the value True) and no
  other: the keys query and engine of a live reply are not in it. When the first failed
  (browsing disabled or the query refused), the second is the same failure.
\<close>

theorem search_twice_served_from_cache:
  "(let first = search e s q eng n True;
        second = search e (after first) q eng m True
    in s_results (reply second) = s_results (reply first)
       \<and> effects second = []
       \<and> after second = after first
       \<and> (if s_success (reply first)
          then search_keys (reply second) = [''success'', ''results'', ''cached'']
               \<and> s_cached (reply second) = Some True
          else reply second = reply first))"
proof (cases "enabled s \<and> fst (check_content_safety s q)")
  case False
  show ?thesis
  proof (cases "enabled s")
    case True
    with False have "\<not> fst (check_content_safety s q)" by simp
    with True show ?thesis
      by (simp add: search_refused search_failure_def Let_def)
  next
    case False
    then show ?thesis
      by (simp add: search_disabled search_failure_def Let_def)
  qed
next
  case ok: True
  show ?thesis
  proof (cases "search_cache s (cache_key eng q)")
    case (Some v)
    then show ?thesis
      using ok by (simp add: search_cache_hit cached_reply_def search_keys_def Let_def)
  next
    case None
    obtain u where u: "search_url_for (effective_engine eng) q = Some u"
      using search_url_for_effective by blast
    obtain k where first: "search e s q eng n True
     = (\<lparr>s_success = True,
          s_results = Some (fst (fetch_search_results e s u n (effective_engine eng))),
          s_query = Some q, s_engine = Some (effective_engine eng),
          s_cached = None, s_error = None, s_reason = None\<rparr>,
        s\<lparr>requests := k,
           search_cache := (search_cache s)(cache_key eng q \<mapsto>
              fst (fetch_search_results e s u n (effective_engine eng)))\<rparr>,
        snd (snd (fetch_search_results e s u n (effective_engine eng))))"
      using search_live [OF _ _ _ u, of s True e n] ok None by auto
    let ?s1 = "s\<lparr>requests := k,
           search_cache := (search_cache s)(cache_key eng q \<mapsto>
              fst (fetch_search_results e s u n (effective_engine eng)))\<rparr>"
    have "check_content_safety ?s1 q = check_content_safety s q"
      by (simp add: check_content_safety_def)
    then have second: "search e ?s1 q eng m True
        = (cached_reply (fst (fetch_search_results e s u n (effective_engine eng))), ?s1, [])"
      using ok by (intro search_cache_hit) simp_all
    show ?thesis
      by (simp add: first second cached_reply_def search_keys_def Let_def)
  qed
qed

text \<open>
  Claim C3 as stated fails in its last part: the reply of a live search has the keys
  success, results, query and engine, and the reply served from the cache has success,
  results and cached, so it differs from the live one by more than the added flag.
\<close>

theorem search_cached_shape_counterexample:
  "search_keys (reply (search (stdlib (net_page results_soup)) fresh ''weather'' ''baidu'' 10 True))
     = [''success'', ''results'', ''query'', ''engine'']
   \<and> search_keys (reply
         (search (stdlib (net_page results_soup))
            (after (search (stdlib (net_page results_soup)) fresh ''weather'' ''baidu'' 10 True))
            ''weather'' ''baidu'' 10 True))
     = [''success'', ''results'', ''cached'']"
  by (simp add: search_def fetch_search_results_def session_get_def check_content_safety_def
      cache_key_def effective_engine_def search_url_for_def SEARCH_ENGINES_def
      replace_spaces_def stdlib_def fresh_def net_page_def prepend_def py_slice_def
      parse_for_engine_def parse_baidu_results_def results_soup_def empty_soup_def
      baidu_block_def or_else_def text_or_empty_def search_keys_def reply_def after_def
      upt_rec Let_def)

subsection \<open>A search that finds nothing\<close>

lemma fetch_attempts_all_fail:
  "\<forall>j<length as. attempt_hits eng n (http_get e (requests s + j) url) = []
   \<Longrightarrow> fst (fetch_attempts e url n eng as [] s) = []"
proof (induction as arbitrary: s)
  case Nil
  then show ?case by simp
next
  case (Cons a as)
  let ?s1 = "s\<lparr>requests := Suc (requests s)\<rparr>"
  have here: "attempt_hits eng n (http_get e (requests s) url) = []"
    using Cons.prems by force
  have "\<forall>j<length as. attempt_hits eng n (http_get e (requests ?s1 + j) url) = []"
    using Cons.prems by force
  then have rest: "fst (fetch_attempts e url n eng as [] ?s1) = []"
    by (rule Cons.IH)
  show ?case
    using here rest
    by (cases "http_get e (requests s) url") (auto simp: session_get_def Let_def)
qed

lemma py_slice_Nil [simp]: "py_slice [] n = []"
  by (simp add: py_slice_def)

lemma fetch_search_results_all_fail:
  "\<forall>j<nat (max_retries s). attempt_hits eng n (http_get e (requests s + j) url) = []
   \<Longrightarrow> fst (fetch_search_results e s url n eng) = []"
  using fetch_attempts_all_fail [of "[0..<nat (max_retries s)]" eng n e s url]
  by (simp add: fetch_search_results_def Let_def)

text \<open>
  Claim C10, as amended. Let a search reach the network (browsing enabled, the query accepted, no
  cache hit) and let every attempt of its retry loop fail or parse zero results: it
  raises, or answers with a status other than 200, or the parser of the engine finds
  nothing on the page. Then the search succeeds with an empty list and stores that list
  under its cache key. After any further calls of the public methods, none of them a
  search under the same key with \<open>use_cache=False\<close>, a search with the same engine and
  query and \<open>use_cache=True\<close> returns success, the empty list and \<open>cached: True\<close>, and
  performs no effect: it never asks the network again.
\<close>

theorem failed_search_is_cached_empty:
  assumes "enabled s" and "fst (check_content_safety s query)"
    and "(if use_cache then search_cache s (cache_key engine query) else None) = None"
    and "search_url_for (effective_engine engine) query = Some url"
    and "\<forall>j<nat (max_retries s).
           attempt_hits (effective_engine engine) max_results (http_get e (requests s + j) url) = []"
    and "list_all (\<lambda>c. \<not> bypasses (cache_key engine query) c) calls"
  shows "(let first = search e s query engine max_results use_cache;
              later = search e (run e (after first) calls) query engine m True
          in s_success (reply first) \<and> s_results (reply first) = Some []
             \<and> search_cache (after first) (cache_key engine query) = Some []
             \<and> reply later = \<lparr>s_success = True, s_results = Some [], s_query = None,
                      s_engine = None, s_cached = Some True, s_error = None, s_reason = None\<rparr>
             \<and> effects later = [])"
proof -
  let ?key = "cache_key engine query"
  let ?first = "search e s query engine max_results use_cache"
  have none_found: "fst (fetch_search_results e s url max_results (effective_engine engine)) = []"
    using assms(5) by (rule fetch_search_results_all_fail)
  obtain k where live: "?first
     = (\<lparr>s_success = True,
          s_results = Some (fst (fetch_search_results e s url max_results (effective_engine engine))),
          s_query = Some query, s_engine = Some (effective_engine engine),
          s_cached = None, s_error = None, s_reason = None\<rparr>,
        s\<lparr>requests := k,
           search_cache := (search_cache s)(?key \<mapsto>
              fst (fetch_search_results e s url max_results (effective_engine engine)))\<rparr>,
        snd (snd (fetch_search_results e s url max_results (effective_engine engine))))"
    using search_live [OF assms(1-4), of e max_results] by blast
  have first: "?first
     = (\<lparr>s_success = True, s_results = Some [],
          s_query = Some query, s_engine = Some (effective_engine engine),
          s_cached = None, s_error = None, s_reason = None\<rparr>,
        s\<lparr>requests := k, search_cache := (search_cache s)(?key \<mapsto> [])\<rparr>,
        snd (snd (fetch_search_results e s url max_results (effective_engine engine))))"
    using live by (simp only: none_found)
  let ?s1 = "s\<lparr>requests := k, search_cache := (search_cache s)(?key \<mapsto> [])\<rparr>"
  have kept: "keeps ?key ?s1 (run e ?s1 calls)"
    using assms(6) by (rule run_keeps)
  have now: "enabled (run e ?s1 calls)" "search_cache (run e ?s1 calls) ?key = Some []"
    "check_content_safety (run e ?s1 calls) query = check_content_safety s query"
    using kept assms(1) by (auto simp: keeps_def check_content_safety_def)
  have later: "search e (run e ?s1 calls) query engine m True
      = (cached_reply [], run e ?s1 calls, [])"
    using now assms(2) by (intro search_cache_hit) simp_all
  show ?thesis
    by (simp add: first later cached_reply_def Let_def)
qed

text \<open>
  The theorem with the network down and a fresh instance: the search for weather on
  baidu, then a page fetch, a search and a collection, then the same search again.
\<close>

theorem failed_search_is_cached_empty_witness:
  "(let first = search (stdlib net_down) fresh ''weather'' ''baidu'' 10 True;
        later = search (stdlib net_down)
                  (run (stdlib net_down) (after first)
                     [Fetch_page ''https://example.com'' True False True,
                      Search ''weather'' ''baidu'' 5 True,
                      Collect_information ''weather'' 3])
                  ''weather'' ''baidu'' 5 True
    in s_success (reply first) \<and> s_results (reply first) = Some []
       \<and> search_cache (after first) (cache_key ''baidu'' ''weather'') = Some []
       \<and> reply later = \<lparr>s_success = True, s_results = Some [], s_query = None,
                s_engine = None, s_cached = Some True, s_error = None, s_reason = None\<rparr>
       \<and> effects later = [])"
  using failed_search_is_cached_empty
    [of fresh "''weather''" True "''baidu''" "''https://www.baidu.com/s?wd=weather''" 10
        "stdlib net_down"
        "[Fetch_page ''https://example.com'' True False True,
          Search ''weather'' ''baidu'' 5 True,
          Collect_information ''weather'' 3]" 5]
  by (simp add: fresh_def check_content_safety_def search_url_for_def effective_engine_def
      SEARCH_ENGINES_def replace_spaces_def stdlib_def net_down_def cache_key_def)

text \<open>
  Claim C10 as stated fails when a search under the same key bypasses the cache in
  between. The network is down for the first search, which stores the empty list. The
  same search with \<open>use_cache=False\<close> skips the cache (line 68), finds the network
  up, and overwrites the entry with its three results (line 91). The same search with
  \<open>use_cache=True\<close> then returns the three cached results, not the empty list.
\<close>

theorem refreshed_search_counterexample:
  "s_results (reply (search (stdlib net_recovering) fresh ''weather'' ''baidu'' 10 True))
     = Some []
   \<and> map_option length (s_results (reply
       (search (stdlib net_recovering)
          (after (search (stdlib net_recovering)
             (after (search (stdlib net_recovering) fresh ''weather'' ''baidu'' 10 True))
             ''weather'' ''baidu'' 10 False))
          ''weather'' ''baidu'' 10 True)))
     = Some 3
   \<and> s_cached (reply
       (search (stdlib net_recovering)
          (after (search (stdlib net_recovering)
             (after (search (stdlib net_recovering) fresh ''weather'' ''baidu'' 10 True))
             ''weather'' ''baidu'' 10 False))
          ''weather'' ''baidu'' 10 True))
     = Some True"
  by code_simp

text \<open>
  Claim C2, at the failing input: the network is down, so each of the three attempts of
  the search raises. The exceptions are caught inside \<open>_fetch_search_results\<close> (line
  146), which returns the empty list; \<open>search\<close> reports success with no result, and no
  error or reason.
\<close>

theorem search_network_down_reports_success:
  "reply (search (stdlib net_down) fresh ''weather'' ''baidu'' 10 True)
     = \<lparr>s_success = True, s_results = Some [], s_query = Some ''weather'',
        s_engine = Some ''baidu'', s_cached = None, s_error = None, s_reason = None\<rparr>
   \<and> effects (search (stdlib net_down) fresh ''weather'' ''baidu'' 10 True)
     = [Get ''https://www.baidu.com/s?wd=weather'', Sleep 1,
        Get ''https://www.baidu.com/s?wd=weather'', Sleep 2,
        Get ''https://www.baidu.com/s?wd=weather'']"
  by (simp add: search_def fetch_search_results_def session_get_def check_content_safety_def
      cache_key_def effective_engine_def search_url_for_def SEARCH_ENGINES_def
      replace_spaces_def stdlib_def fresh_def net_down_def prepend_def py_slice_def
      reply_def effects_def upt_rec Let_def)

subsection \<open>The bound on the number of results\<close>

text \<open>
  A live search returns at most \<open>max_results\<close> results (line 151), for a
  \<open>max_results\<close> that is not negative.
\<close>

lemma length_py_slice: "0 \<le> n \<Longrightarrow> length (py_slice xs n) \<le> nat n"
  by (simp add: py_slice_def)

lemma fetch_search_results_length:
  "0 \<le> n \<Longrightarrow> length (fst (fetch_search_results e s url n eng)) \<le> nat n"
  by (simp add: fetch_search_results_def Let_def length_py_slice)

lemma search_live_length:
  assumes "0 \<le> n" and "s_results (reply (search e s q eng n uc)) = Some rs"
    and "s_cached (reply (search e s q eng n uc)) = None"
  shows "length rs \<le> nat n"
proof -
  obtain allowed reason where c: "check_content_safety s q = (allowed, reason)"
    by fastforce
  obtain u where u: "search_url_for (effective_engine eng) q = Some u"
    using search_url_for_effective by blast
  show ?thesis
    using assms fetch_search_results_length [OF assms(1), of e s u "effective_engine eng"]
    by (auto simp: search_def c u Let_def search_failure_def split: if_splits option.splits)
qed

text \<open>
  Claim C4, at the failing input. The cache key is made of the engine and the query
  only, and a cache hit returns the stored list as it is (lines 68-74): after a search
  with \<open>max_results=10\<close> that found three results, the same search with
  \<open>max_results=1\<close> returns all three, without a request.
\<close>

theorem search_cache_ignores_max_results: "map_option length (s_results (reply
     (search (stdlib (net_page results_soup))
        (after (search (stdlib (net_page results_soup)) fresh ''weather'' ''baidu'' 10 True))
        ''weather'' ''baidu'' 1 True))) = Some 3
   \<and> effects (search (stdlib (net_page results_soup))
        (after (search (stdlib (net_page results_soup)) fresh ''weather'' ''baidu'' 10 True))
        ''weather'' ''baidu'' 1 True) = []"
  by (simp add: search_def fetch_search_results_def session_get_def check_content_safety_def
      cache_key_def effective_engine_def search_url_for_def SEARCH_ENGINES_def
      replace_spaces_def stdlib_def fresh_def net_page_def prepend_def py_slice_def
      parse_for_engine_def parse_baidu_results_def results_soup_def empty_soup_def
      baidu_block_def or_else_def text_or_empty_def reply_def after_def effects_def
      upt_rec Let_def)

subsection \<open>The retry loop\<close>

lemma filter_is_get_attempt_effects [simp]:
  "filter is_get (attempt_effects e s url k) = [Get url]"
  by (simp add: attempt_effects_def)

lemma fetch_attempts_effects:
  assumes "requests s' = requests s + i" and "max_retries s' = max_retries s"
  shows "length (filter is_get (snd (snd (fetch_attempts e url n eng [i..<m] res s')))) \<le> m - i
    \<and> snd (snd (fetch_attempts e url n eng [i..<m] res s'))
        = concat (map (attempt_effects e s url)
            [i..<i + length (filter is_get (snd (snd (fetch_attempts e url n eng [i..<m] res s'))))])"
  using assms
proof (induction "m - i" arbitrary: i s' res)
  case 0
  then show ?case by simp
next
  case (Suc d)
  then have lt: "i < m" by simp
  let ?s1 = "s'\<lparr>requests := Suc (requests s')\<rparr>"
  have sg: "session_get e s' url = (http_get e (requests s + i) url, ?s1)"
    using Suc.prems by (simp add: session_get_def)
  have d: "d = m - Suc i" using Suc.hyps(2) by simp
  have r1: "requests ?s1 = requests s + Suc i" using Suc.prems by simp
  have m1: "max_retries ?s1 = max_retries s" using Suc.prems by simp
  note IH = Suc.hyps(1) [OF d r1 m1]
  have unroll: "[i..<m] = i # [Suc i..<m]" using lt by (simp add: upt_rec)
  have seg: "\<And>k. [i..<Suc (i + k)] = i # [Suc i..<Suc (i + k)]"
    by (simp add: upt_conv_Cons del: upt_Suc)
  show ?case
  proof (cases "http_get e (requests s + i) url")
    case (Raises x)
    let ?rest = "snd (snd (fetch_attempts e url n eng [Suc i..<m] res ?s1))"
    have eff: "snd (snd (fetch_attempts e url n eng [i..<m] res s'))
        = attempt_effects e s url i @ ?rest"
      using Raises m1 by (simp add: unroll sg attempt_effects_def)
    have cnt: "length (filter is_get (attempt_effects e s url i @ ?rest))
        = Suc (length (filter is_get ?rest))"
      by simp
    show ?thesis
      unfolding eff cnt using IH [of res] lt by (auto simp add: seg simp del: upt_Suc)
  next
    case (Response status pg)
    show ?thesis
    proof (cases "status = 200 \<and> parse_for_engine eng (doc pg) n \<noteq> []")
      case True
      then have eff: "snd (snd (fetch_attempts e url n eng [i..<m] res s')) = [Get url]"
        using Response by (simp add: unroll sg Let_def)
      show ?thesis
        unfolding eff using lt Response by (simp add: attempt_effects_def)
    next
      case False
      then obtain res' where eff: "snd (snd (fetch_attempts e url n eng [i..<m] res s'))
          = attempt_effects e s url i
            @ snd (snd (fetch_attempts e url n eng [Suc i..<m] res' ?s1))"
        using Response by (cases "status = 200") (auto simp: unroll sg Let_def attempt_effects_def)
      let ?rest = "snd (snd (fetch_attempts e url n eng [Suc i..<m] res' ?s1))"
      have cnt: "length (filter is_get (attempt_effects e s url i @ ?rest))
          = Suc (length (filter is_get ?rest))"
        by simp
      show ?thesis
        unfolding eff cnt using IH [of res'] lt by (auto simp add: seg simp del: upt_Suc)
    qed
  qed
qed

lemma fetch_search_results_effects:
  "length (filter is_get (snd (snd (fetch_search_results e s url n eng)))) \<le> nat (max_retries s)
   \<and> snd (snd (fetch_search_results e s url n eng))
       = concat (map (attempt_effects e s url)
           [0..<length (filter is_get (snd (snd (fetch_search_results e s url n eng))))])"
  using fetch_attempts_effects [of s s 0 e url n eng "nat (max_retries s)" "[]"]
  by (simp add: fetch_search_results_def Let_def)

lemma attempt_hits_Nil_iff:
  "(attempt_hits eng n out = []) =
   (case out of Raises x \<Rightarrow> True
    | Response status pg \<Rightarrow> \<not> (status = 200 \<and> parse_for_engine eng (doc pg) n \<noteq> []))"
  by (cases out) auto

lemma fetch_attempts_made:
  assumes "requests s' = requests (s::browser) + i" and "max_retries s' = max_retries s"
  shows "length (filter is_get (snd (snd (fetch_attempts e url n eng [i..<m] res s'))))
     = min (m - i)
         (Suc (length (takeWhile
            (\<lambda>k. attempt_hits eng n (http_get e (requests s + k) url) = []) [i..<m])))"
  using assms
proof (induction "m - i" arbitrary: i s' res)
  case 0
  then show ?case by simp
next
  case (Suc d)
  then have lt: "i < m" by simp
  let ?P = "\<lambda>k. attempt_hits eng n (http_get e (requests s + k) url) = []"
  let ?s1 = "s'\<lparr>requests := Suc (requests s')\<rparr>"
  have sg: "session_get e s' url = (http_get e (requests s + i) url, ?s1)"
    using Suc.prems by (simp add: session_get_def)
  have d: "d = m - Suc i" using Suc.hyps(2) by simp
  have r1: "requests ?s1 = requests s + Suc i" using Suc.prems by simp
  have m1: "max_retries ?s1 = max_retries s" using Suc.prems by simp
  note IH = Suc.hyps(1) [OF d r1 m1]
  have unroll: "[i..<m] = i # [Suc i..<m]" using lt by (simp add: upt_rec)
  show ?case
  proof (cases "?P i")
    case False
    then obtain pg where out: "http_get e (requests s + i) url = Response 200 pg"
      and found: "parse_for_engine eng (doc pg) n \<noteq> []"
      by (cases "http_get e (requests s + i) url") (auto split: if_splits)
    have "snd (snd (fetch_attempts e url n eng [i..<m] res s')) = [Get url]"
      using out found by (simp add: unroll sg Let_def)
    moreover have "takeWhile ?P [i..<m] = []"
      using False by (simp add: unroll)
    ultimately show ?thesis using lt by simp
  next
    case True
    then obtain res' where eff: "snd (snd (fetch_attempts e url n eng [i..<m] res s'))
        = attempt_effects e s url i
          @ snd (snd (fetch_attempts e url n eng [Suc i..<m] res' ?s1))"
      using m1
      by (cases "http_get e (requests s + i) url")
         (auto simp: unroll sg Let_def attempt_effects_def split: if_splits)
    have tw: "takeWhile ?P [i..<m] = i # takeWhile ?P [Suc i..<m]"
      using True by (simp add: unroll)
    show ?thesis
      unfolding eff tw using IH [of res'] lt by simp
  qed
qed

lemma fetch_search_results_made:
  "length (filter is_get (snd (snd (fetch_search_results e s url n eng))))
     = attempts_made e s url n eng"
  using fetch_attempts_made [of s s 0 e url n eng "nat (max_retries s)" "[]"]
  by (simp add: fetch_search_results_def attempts_made_def Let_def)

lemma attempts_made_next:
  assumes "k < nat (max_retries s)"
    and "\<forall>j<k. attempt_hits eng n (http_get e (requests s + j) url) = []"
  shows "k < attempts_made e s url n eng"
proof -
  let ?P = "\<lambda>k. attempt_hits eng n (http_get e (requests s + k) url) = []"
  have "k \<le> length (takeWhile ?P [0..<nat (max_retries s)])"
    using assms by (intro length_takeWhile_less_P_nth) auto
  then show ?thesis
    using assms(1) by (simp add: attempts_made_def)
qed

lemma attempts_made_all_fail:
  assumes "\<forall>j<nat (max_retries s). attempt_hits eng n (http_get e (requests s + j) url) = []"
  shows "attempts_made e s url n eng = nat (max_retries s)"
proof -
  have tw: "takeWhile (\<lambda>k. attempt_hits eng n (http_get e (requests s + k) url) = [])
          [0..<nat (max_retries s)] = [0..<nat (max_retries s)]"
    using assms by (intro takeWhile_eq_all_conv [THEN iffD2]) auto
  show ?thesis unfolding attempts_made_def tw by simp
qed

text \<open>
  Claim C5, as amended. A call of \<open>search\<close> performs at most \<open>max_retries\<close> GET
  requests, all for the search URL. Its effects are those of its attempts, one after the
  other: attempt \<open>k\<close> (from 0) is the request, followed by a suspension of \<open>k + 1\<close>
  seconds exactly when the request raised an exception and the attempt is not the last
  one (\<open>k < max_retries - 1\<close>). After a response, be it a status other than 200 or a
  page without results, the next attempt follows with no suspension. The attempts go on
  until one yields results: when the search reaches the network, attempt \<open>k\<close> is made
  whenever it is within \<open>max_retries\<close> and every attempt before it yielded nothing,
  and the number of requests is \<open>attempts_made\<close>; a search that does not reach the
  network makes none.
\<close>

theorem search_attempts_and_pauses:
  assumes "search_url_for (effective_engine engine) query = Some url"
  shows "(let t = effects (search e s query engine n use_cache);
              made = length (filter is_get t)
          in made \<le> nat (max_retries s)
             \<and> t = concat (map (attempt_effects e s url) [0..<made])
             \<and> made = (if reaches_network s query engine use_cache
                       then attempts_made e s url n (effective_engine engine) else 0)
             \<and> (\<forall>k. reaches_network s query engine use_cache \<and> k < nat (max_retries s)
                    \<and> (\<forall>j<k. attempt_hits (effective_engine engine) n
                                 (http_get e (requests s + j) url) = [])
                  \<longrightarrow> k < made))"
proof (cases "reaches_network s query engine use_cache")
  case True
  then obtain k where "search e s query engine n use_cache
     = (\<lparr>s_success = True,
          s_results = Some (fst (fetch_search_results e s url n (effective_engine engine))),
          s_query = Some query, s_engine = Some (effective_engine engine),
          s_cached = None, s_error = None, s_reason = None\<rparr>,
        s\<lparr>requests := k,
           search_cache := (search_cache s)(cache_key engine query \<mapsto>
              fst (fetch_search_results e s url n (effective_engine engine)))\<rparr>,
        snd (snd (fetch_search_results e s url n (effective_engine engine))))"
    using search_live [OF _ _ _ assms, of s use_cache e n]
    by (auto simp: reaches_network_def)
  then have eff: "effects (search e s query engine n use_cache)
      = snd (snd (fetch_search_results e s url n (effective_engine engine)))"
    by simp
  show ?thesis
    using True fetch_search_results_effects [of e s url n "effective_engine engine"]
      fetch_search_results_made [of e s url n "effective_engine engine"]
      attempts_made_next [of _ s "effective_engine engine" n e url]
    by (simp add: eff Let_def)
next
  case False
  then have "effects (search e s query engine n use_cache) = []"
    by (cases "check_content_safety s query")
       (auto simp: search_def reaches_network_def Let_def split: option.splits if_splits)
  then show ?thesis using False by (simp add: Let_def)
qed

text \<open>
  The theorem for a search on bing with the network down: three requests, and a
  suspension of 1 and of 2 seconds between them.
\<close>

theorem search_attempts_and_pauses_witness:
  "length (filter is_get (effects (search (stdlib net_down) fresh ''news'' ''bing'' 5 False))) = 3
   \<and> effects (search (stdlib net_down) fresh ''news'' ''bing'' 5 False)
     = [Get ''https://www.bing.com/search?q=news'', Sleep 1,
        Get ''https://www.bing.com/search?q=news'', Sleep 2,
        Get ''https://www.bing.com/search?q=news'']"
  using search_attempts_and_pauses [of "''bing''" "''news''" "''https://www.bing.com/search?q=news''"
      "stdlib net_down" fresh 5 False]
  by (simp add: search_def fetch_search_results_def session_get_def check_content_safety_def
      cache_key_def effective_engine_def search_url_for_def SEARCH_ENGINES_def
      replace_spaces_def stdlib_def fresh_def net_down_def prepend_def py_slice_def
      effects_def upt_rec Let_def)


text \<open>
  Claim C5 as stated fails when an attempt fails without an exception. Against a server
  that answers 500, the three attempts follow each other with no suspension between
  them (line 128 goes on to the next attempt; the suspension of line 149 is in the
  exception handler only).
\<close>

theorem search_no_pause_counterexample:
  "effects (search (stdlib net_500) fresh ''weather'' ''baidu'' 10 True)
     = [Get ''https://www.baidu.com/s?wd=weather'',
        Get ''https://www.baidu.com/s?wd=weather'',
        Get ''https://www.baidu.com/s?wd=weather'']
   \<and> \<not> spec_linear_backoff 1
         (effects (search (stdlib net_500) fresh ''weather'' ''baidu'' 10 True))"
  by (simp add: search_def fetch_search_results_def session_get_def check_content_safety_def
      cache_key_def effective_engine_def search_url_for_def SEARCH_ENGINES_def
      replace_spaces_def stdlib_def fresh_def net_500_def prepend_def py_slice_def
      effects_def upt_rec Let_def)

subsection \<open>The parser strategies\<close>

lemma parse_baidu_loop_source:
  "list_all (\<lambda>h. hit_source h = ''baidu'') acc
   \<Longrightarrow> list_all (\<lambda>h. hit_source h = ''baidu'') (parse_baidu_loop items acc)"
  by (induction items arbitrary: acc) (auto split: option.splits)

lemma parse_google_loop_source:
  "list_all (\<lambda>h. hit_source h = ''google'') acc
   \<Longrightarrow> list_all (\<lambda>h. hit_source h = ''google'') (parse_google_loop items acc)"
  by (induction items arbitrary: acc) (auto split: option.splits)

lemma parse_bing_loop_source:
  "list_all (\<lambda>h. hit_source h = ''bing'') acc
   \<Longrightarrow> list_all (\<lambda>h. hit_source h = ''bing'') (parse_bing_loop items acc)"
  by (induction items arbitrary: acc) (auto split: option.splits)

lemma parse_generic_loop_source:
  "list_all (\<lambda>h. hit_source h = ''generic'') acc
   \<Longrightarrow> list_all (\<lambda>h. hit_source h = ''generic'') (parse_generic_loop as n acc)"
  by (induction as arbitrary: acc) (auto simp: Let_def)

lemma parse_for_engine_source:
  "engine \<in> {''baidu'', ''google'', ''bing''}
   \<Longrightarrow> list_all (\<lambda>h. hit_source h = engine) (parse_for_engine engine d n)"
  using parse_baidu_loop_source [of "[]"] parse_google_loop_source [of "[]"]
    parse_bing_loop_source [of "[]"]
  by (auto simp: parse_for_engine_def parse_baidu_results_def parse_google_results_def
      parse_bing_results_def)

lemma fetch_attempts_source:
  assumes "engine \<in> {''baidu'', ''google'', ''bing''}"
  shows "list_all (\<lambda>h. hit_source h = engine) res
   \<Longrightarrow> list_all (\<lambda>h. hit_source h = engine) (fst (fetch_attempts e url n engine as res s))"
proof (induction as arbitrary: res s)
  case Nil
  then show ?case by simp
next
  case (Cons a as)
  show ?case
    using Cons.IH Cons.prems parse_for_engine_source [OF assms]
    by (cases "http_get e (requests s) url") (auto simp: session_get_def Let_def)
qed

lemma list_all_py_slice: "list_all P xs \<Longrightarrow> list_all P (py_slice xs n)"
  by (auto simp: py_slice_def list_all_iff dest: in_set_takeD)

text \<open>
  Claim C6, as amended. For the engines baidu, google and bing, a 200 response is parsed
  by the parser of the engine and by no other: every result returned carries the name
  of the engine as its source (the results of the generic strategy carry the source
  generic). When that parser finds nothing, the loop goes on to the next attempt, a new
  GET request: attempt \<open>k\<close> is made whenever it is within \<open>max_retries\<close> and every
  attempt before it yielded nothing, so the number of requests is \<open>attempts_made\<close>.
  When no attempt yields a result, all \<open>max_retries\<close> requests are made and the
  result is empty.
\<close>

theorem dedicated_parser_has_no_fallback:
  assumes "engine \<in> {''baidu'', ''google'', ''bing''}"
  shows "(let r = fetch_search_results e s url n engine;
              made = length (filter is_get (effects r))
          in list_all (\<lambda>h. hit_source h = engine) (reply r)
             \<and> attempt_hits engine n (Response 200 pg)
                 = (if engine = ''baidu'' then parse_baidu_results (doc pg) n
                    else if engine = ''google'' then parse_google_results (doc pg) n
                    else parse_bing_results (doc pg) n)
             \<and> made = attempts_made e s url n engine
             \<and> (\<forall>k. k < nat (max_retries s)
                    \<and> (\<forall>j<k. attempt_hits engine n (http_get e (requests s + j) url) = [])
                  \<longrightarrow> k < made)
             \<and> ((\<forall>j<nat (max_retries s).
                     attempt_hits engine n (http_get e (requests s + j) url) = [])
                  \<longrightarrow> reply r = [] \<and> made = nat (max_retries s))
             \<and> list_all (\<lambda>h. hit_source h = ''generic'') (parse_generic_results d n))"
proof -
  let ?r = "fetch_search_results e s url n engine"
  have a: "list_all (\<lambda>h. hit_source h = engine) (fst ?r)"
    using fetch_attempts_source [OF assms, of "[]"]
    by (simp add: fetch_search_results_def Let_def list_all_py_slice)
  have c: "attempt_hits engine n (Response 200 pg)
         = (if engine = ''baidu'' then parse_baidu_results (doc pg) n
            else if engine = ''google'' then parse_google_results (doc pg) n
            else parse_bing_results (doc pg) n)"
    using assms by (auto simp: parse_for_engine_def)
  have m: "length (filter is_get (snd (snd ?r))) = attempts_made e s url n engine"
    by (rule fetch_search_results_made)
  have nx: "\<forall>k. k < nat (max_retries s)
                \<and> (\<forall>j<k. attempt_hits engine n (http_get e (requests s + j) url) = [])
              \<longrightarrow> k < length (filter is_get (snd (snd ?r)))"
    unfolding m using attempts_made_next by blast
  have b: "(\<forall>j<nat (max_retries s).
             attempt_hits engine n (http_get e (requests s + j) url) = [])
          \<longrightarrow> fst ?r = [] \<and> length (filter is_get (snd (snd ?r))) = nat (max_retries s)"
    unfolding m using fetch_search_results_all_fail attempts_made_all_fail by blast
  have g: "list_all (\<lambda>h. hit_source h = ''generic'') (parse_generic_results d n)"
    using parse_generic_loop_source [of "[]"] by (simp add: parse_generic_results_def)
  show ?thesis
    unfolding Let_def reply_def effects_def using a c m nx b g by blast
qed

text \<open>
  The theorem for baidu and a page that has links but no result block: three requests,
  no result.
\<close>

theorem dedicated_parser_has_no_fallback_witness:
  "reply (fetch_search_results (stdlib (net_page links_soup)) fresh
            ''https://www.baidu.com/s?wd=weather'' 10 ''baidu'') = []
   \<and> length (filter is_get (effects (fetch_search_results (stdlib (net_page links_soup)) fresh
            ''https://www.baidu.com/s?wd=weather'' 10 ''baidu''))) = 3
   \<and> list_all (\<lambda>h. hit_source h = ''generic'') (parse_generic_results links_soup 10)"
  using dedicated_parser_has_no_fallback [of "''baidu''" "stdlib (net_page links_soup)" fresh
      "''https://www.baidu.com/s?wd=weather''" 10
      "\<lparr>html_len = 1000, doc = links_soup\<rparr>" links_soup]
  by (simp add: stdlib_def net_page_def fresh_def parse_for_engine_def parse_baidu_results_def
      links_soup_def empty_soup_def py_slice_def Let_def)


text \<open>
  Claim C6 as stated fails. Every attempt of a search on baidu receives a 200 response
  whose page has no result block of baidu and a link the generic strategy takes. The
  generic strategy is never tried: the search makes its three attempts and returns no
  result.
\<close>

theorem empty_parse_no_fallback_counterexample:
  "reply (search (stdlib (net_page links_soup)) fresh ''weather'' ''baidu'' 10 True)
     = \<lparr>s_success = True, s_results = Some [], s_query = Some ''weather'',
        s_engine = Some ''baidu'', s_cached = None, s_error = None, s_reason = None\<rparr>
   \<and> effects (search (stdlib (net_page links_soup)) fresh ''weather'' ''baidu'' 10 True)
     = [Get ''https://www.baidu.com/s?wd=weather'',
        Get ''https://www.baidu.com/s?wd=weather'',
        Get ''https://www.baidu.com/s?wd=weather'']
   \<and> parse_generic_results links_soup 10
     = [\<lparr>hit_title = ''Weather news'', hit_url = ''https://example.org/news'',
         hit_description = [], hit_source = ''generic''\<rparr>]"
  by (simp add: search_def fetch_search_results_def session_get_def check_content_safety_def
      cache_key_def effective_engine_def search_url_for_def SEARCH_ENGINES_def
      replace_spaces_def stdlib_def fresh_def net_page_def prepend_def py_slice_def
      parse_for_engine_def parse_baidu_results_def parse_generic_results_def
      generic_candidate_def links_soup_def empty_soup_def
      reply_def effects_def upt_rec Let_def)

subsection \<open>The fields of a fetched page\<close>

text \<open>
  A page fetched live has the text field exactly when \<open>extract_text\<close> is set, and the
  links field exactly when \<open>extract_links\<close> is set.
\<close>

lemma map_sum_Some: "map_sum id Some r = Inr x \<Longrightarrow> \<exists>y. x = Some y \<and> r = Inr y"
  by (cases r) auto

lemma fetch_page_live_fields:
  assumes "p_success (reply (fetch_page e s url extract_text extract_links use_cache))"
    and "p_cached (reply (fetch_page e s url extract_text extract_links use_cache)) = None"
  shows "(p_text (reply (fetch_page e s url extract_text extract_links use_cache)) \<noteq> None) = extract_text
    \<and> (p_links (reply (fetch_page e s url extract_text extract_links use_cache)) \<noteq> None) = extract_links"
  using assms
  by (auto simp: fetch_page_def session_get_def page_failure_def page_success_def Let_def
      split: if_splits option.splits outcome.splits sum.splits dest!: map_sum_Some)

text \<open>
  Claim C7, at the failing input. The page cache is keyed by the URL alone and a cache
  hit returns the stored dictionary as it is (lines 280-287): after a fetch with
  \<open>extract_text=True, extract_links=False\<close>, the fetch of the same URL with
  \<open>extract_text=False, extract_links=True\<close> is served from the cache, with the text
  that was not asked for and without the links that were.
\<close>

theorem fetch_page_cache_ignores_flags:
  "(let e = stdlib (net_page nav_soup);
        first = fetch_page e fresh ''https://example.com'' True False True;
        second = fetch_page e (after first) ''https://example.com'' False True True
    in p_success (reply second) \<and> p_cached (reply second) = Some True
       \<and> p_text (reply second) = Some ''Welcome'' \<and> p_links (reply second) = None
       \<and> effects second = [])"
  by (simp add: fetch_page_def session_get_def page_failure_def page_success_def Let_def
      stdlib_def net_page_def nav_soup_def empty_soup_def fresh_def is_safe_url_def
      py_urlparse_def py_ip_address_def decompose_def)

text \<open>
  The links of a page fetched live: the anchors of the document, each resolved against
  the URL of the call, those kept that \<open>_is_safe_url\<close> accepts; but when
  \<open>extract_text\<close> is set as well, only the anchors that are outside the elements
  removed for the text.
\<close>

lemma extract_links_loop_Inr:
  "extract_links_loop e url as acc = Inr ls \<Longrightarrow>
   ls = acc @ map (\<lambda>a. \<lparr>link_text = a_text a, link_url = resolved e url a\<rparr>)
                (filter (\<lambda>a. is_safe_url e (resolved e url a)) as)"
proof (induction as arbitrary: acc)
  case Nil
  then show ?case by simp
next
  case (Cons a as)
  then obtain u where u: "urljoin e url (a_href a) = Inr u"
    by (cases "urljoin e url (a_href a)") auto
  then have r: "resolved e url a = u"
    by (simp add: resolved_def)
  show ?case
    using Cons.prems Cons.IH [of "if is_safe_url e u
        then acc @ [\<lparr>link_text = a_text a, link_url = u\<rparr>] else acc"]
    by (simp add: u r)
qed

lemma fetch_page_live_links:
  assumes "p_cached (reply (fetch_page e s url extract_text True use_cache)) = None"
    and "p_links (reply (fetch_page e s url extract_text True use_cache)) = Some ls"
  shows "\<exists>status pg. http_get e (requests s) url = Response status pg
    \<and> ls = map (\<lambda>a. \<lparr>link_text = a_text a, link_url = resolved e url a\<rparr>)
          (filter (\<lambda>a. is_safe_url e (resolved e url a))
             (filter (\<lambda>a. \<not> extract_text \<or> \<not> a_in_stripped a) (anchors (doc pg))))"
  using assms
  by (auto simp: fetch_page_def session_get_def page_failure_def page_success_def Let_def
      decompose_def
      split: if_splits option.splits outcome.splits sum.splits
      dest!: map_sum_Some extract_links_loop_Inr)

text \<open>
  Claim C8, at the failing input: a page whose navigation bar links to /about. Line 317
  removes the nav element from the document itself before line 326 looks for the
  anchors, so with \<open>extract_text=True\<close> the links lack the anchor of the navigation
  bar, whose target \<open>_is_safe_url\<close> accepts; with \<open>extract_text=False\<close> the same
  page gives it.
\<close>

theorem fetch_page_links_lose_navigation:
  "p_links (reply (fetch_page (stdlib (net_page nav_soup)) fresh ''https://example.com'' True True True))
     = Some [\<lparr>link_text = ''News'', link_url = ''https://example.org/news''\<rparr>]
   \<and> p_links (reply (fetch_page (stdlib (net_page nav_soup)) fresh ''https://example.com'' False True True))
     = Some [\<lparr>link_text = ''About'', link_url = ''https://example.com/about''\<rparr>,
             \<lparr>link_text = ''News'', link_url = ''https://example.org/news''\<rparr>]
   \<and> is_safe_url (stdlib (net_page nav_soup)) ''https://example.com/about''"
  by (simp add: fetch_page_def session_get_def page_failure_def page_success_def Let_def
      stdlib_def net_page_def nav_soup_def empty_soup_def fresh_def is_safe_url_def
      py_urlparse_def py_ip_address_def py_urljoin_def decompose_def)

subsection \<open>The rounds of \<open>search_and_research\<close>\<close>

lemma collect_queries_append [simp]:
  "collect_queries (a @ b) = collect_queries a @ collect_queries b"
  by (induction a rule: collect_queries.induct) simp_all

lemma collect_queries_fetch_attempts [simp]:
  "collect_queries (snd (snd (fetch_attempts e url n eng as res s))) = []"
proof (induction as arbitrary: res s)
  case Nil
  then show ?case by simp
next
  case (Cons a as)
  show ?case
    using Cons.IH
    by (cases "http_get e (requests s) url") (simp_all add: session_get_def Let_def)
qed

lemma collect_queries_search [simp]:
  "collect_queries (snd (snd (search e s q eng n uc))) = []"
  by (cases "check_content_safety s q")
     (simp add: search_def fetch_search_results_def Let_def split: option.splits)

lemma collect_queries_fetch_page [simp]:
  "collect_queries (snd (snd (fetch_page e s u xt xl uc))) = []"
  by (simp add: fetch_page_def session_get_def Let_def
      split: option.splits outcome.splits sum.splits)

lemma collect_queries_collect_loop [simp]:
  "collect_queries (snd (snd (collect_loop e hs acc s))) = []"
  by (induction hs arbitrary: acc s) (simp_all add: Let_def)

lemma collect_information_enabled:
  assumes "enabled s"
  shows "collect_queries (snd (snd (collect_information e s q n))) = [q]"
    and "c_success (fst (collect_information e s q n))
         \<Longrightarrow> c_query (fst (collect_information e s q n)) = Some q"
  using assms by (simp_all add: collect_information_def Let_def split: if_splits)

lemma collect_information_success:
  assumes "enabled s" and "c_success (fst (collect_information e s q n))"
  shows "c_query (fst (collect_information e s q n)) = Some q
    \<and> c_detailed_info (fst (collect_information e s q n)) \<noteq> None"
  using assms by (simp add: collect_information_def Let_def split: if_splits)

lemma collect_information_keeps_enabled:
  "enabled (fst (snd (collect_information e s q n))) = enabled s"
  using collect_information_keeps [of "[]" s e q n] by (simp add: keeps_def)

lemma length_rounds: "length (rounds e query k s) \<le> k"
  by (induction k arbitrary: s) (auto simp: Let_def)

lemma rounds_completed:
  "enabled s \<Longrightarrow>
   list_all (\<lambda>c. c_success c \<and> c_query c = Some query \<and> c_detailed_info c \<noteq> None)
     (rounds e query k s)"
proof (induction k arbitrary: s)
  case 0
  then show ?case by simp
next
  case (Suc k)
  show ?case
    using Suc.prems Suc.IH [of "fst (snd (collect_information e s query 3))"]
      collect_information_success [of s e query 3]
    by (simp add: collect_information_keeps_enabled)
qed

lemma research_loop_is_rounds:
  assumes "enabled s"
  shows "fst (research_loop e query n is query acc s) = acc @ rounds e query (length is) s
     \<and> collect_queries (snd (snd (research_loop e query n is query acc s)))
         = replicate (min (length is) (Suc (length (rounds e query (length is) s)))) query"
  using assms
proof (induction "is" arbitrary: acc s)
  case Nil
  then show ?case by simp
next
  case (Cons i "is")
  let ?r = "collect_information e s query 3"
  have q1: "collect_queries (snd (snd ?r)) = [query]"
    using Cons.prems by (rule collect_information_enabled(1))
  show ?case
  proof (cases "c_success (fst ?r)")
    case False
    then show ?thesis using q1 by (simp add: Let_def)
  next
    case True
    have en: "enabled (fst (snd ?r))"
      using Cons.prems by (simp add: collect_information_keeps_enabled)
    note IH = Cons.IH [OF en, of "acc @ [fst ?r]"]
    have len: "length (rounds e query (length is) (fst (snd ?r))) \<le> length is"
      by (rule length_rounds)
    show ?thesis
      using True q1 IH len by (simp add: Let_def min_def)
  qed
qed

text \<open>
  Claim C9. On an instance with browsing enabled, \<open>search_and_research\<close> returns as
  \<open>results\<close> exactly the replies \<open>rs\<close> of the rounds that complete when
  \<open>collect_information\<close> is called with the original query (and \<open>max_pages=3\<close>)
  up to \<open>num_iterations\<close> times in a row, stopping at the first call that fails; as
  \<open>iterations\<close> their number, which is at most \<open>num_iterations\<close>; and as
  \<open>total_sources\<close> the sum over these replies of the length of the
  \<open>detailed_info\<close> list, which each of them has. It enters \<open>collect_information\<close>
  once per round it runs, each time with the original query: once more than the rounds
  that completed when a round failed, and \<open>num_iterations\<close> times otherwise.
\<close>

theorem search_and_research_rounds:
  assumes "enabled s"
  shows "(let r = search_and_research e s query num_iterations;
              rs = rounds e query (nat num_iterations) s
          in reply r
               = \<lparr>r_success = True, r_error = None, r_original_query = Some query,
                  r_iterations = Some (length rs), r_results = Some rs,
                  r_total_sources =
                    Some (sum_list (map (\<lambda>c. length (case c_detailed_info c of
                                                        Some x \<Rightarrow> x | None \<Rightarrow> [])) rs))\<rparr>
             \<and> length rs \<le> nat num_iterations
             \<and> list_all (\<lambda>c. c_success c \<and> c_query c = Some query
                              \<and> c_detailed_info c \<noteq> None) rs
             \<and> collect_queries (effects r)
                 = replicate (min (nat num_iterations) (Suc (length rs))) query)"
  using assms
    research_loop_is_rounds [OF assms, of e query num_iterations "[0..<nat num_iterations]" "[]"]
    length_rounds [of e query "nat num_iterations" s]
    rounds_completed [OF assms, of query e "nat num_iterations"]
  by (simp add: search_and_research_def Let_def reply_def effects_def)

text \<open>
  The theorem for two rounds on a fresh instance, against a result page with one result:
  both rounds complete, each with one source (the second from the caches), so
  \<open>total_sources\<close> is 2.
\<close>

theorem search_and_research_rounds_witness:
  "r_iterations (reply (search_and_research (stdlib (net_page single_soup)) fresh ''weather'' 2))
     = Some 2
   \<and> r_total_sources
       (reply (search_and_research (stdlib (net_page single_soup)) fresh ''weather'' 2))
     = Some 2
   \<and> collect_queries
       (effects (search_and_research (stdlib (net_page single_soup)) fresh ''weather'' 2))
     = [''weather'', ''weather'']"
proof -
  define rs where "rs = rounds (stdlib (net_page single_soup)) ''weather'' (nat 2) fresh"
  have completed:
    "map (\<lambda>c. length (case c_detailed_info c of Some x \<Rightarrow> x | None \<Rightarrow> [])) rs = [1, 1]"
    unfolding rs_def by code_simp
  have len: "length rs = 2"
    using arg_cong [OF completed, of length] by simp
  have on: "enabled fresh"
    by (simp add: fresh_def)
  from search_and_research_rounds [OF on, of "stdlib (net_page single_soup)" "''weather''" 2]
  show ?thesis
    unfolding Let_def rs_def [symmetric] by (simp add: completed len numeral_2_eq_2)
qed


end
